theory Spec2Isabelle
  imports Main "HOL-Library.AList"
begin

section \<open>The Collaboro real-time relay (backend server)\<close>

text \<open>
  The backend server keeps three in-memory stores, \<open>activeUsers\<close>, \<open>chatRooms\<close> and
  \<open>videoRooms\<close>, and registers one handler per Socket.io event. Every handler is embedded
  as a function from the relay state to the new state and the list of effects it performs
  (console lines and emissions), in the order the source performs them.
\<close>

subsection \<open>JavaScript containers\<close>

text \<open>
  A JavaScript \<open>Map\<close> keeps its keys in insertion order, \<open>set\<close> on a present key replaces
  the value in place and on an absent key appends: an association list under
  \<open>AList.update\<close>. A JavaScript \<open>Set\<close> is a list in insertion order in which \<open>add\<close> of a
  present element does nothing.
\<close>

type_synonym ('k, 'v) jsmap = "('k \<times> 'v) list"
type_synonym 'a jsset = "'a list"

definition map_has :: "'k \<Rightarrow> ('k, 'v) jsmap \<Rightarrow> bool" where
  "map_has k m = (map_of m k \<noteq> None)"

definition map_get :: "'k \<Rightarrow> ('k, 'v) jsmap \<Rightarrow> 'v option" where
  "map_get k m = map_of m k"

definition map_set :: "'k \<Rightarrow> 'v \<Rightarrow> ('k, 'v) jsmap \<Rightarrow> ('k, 'v) jsmap" where
  "map_set k v m = AList.update k v m"

definition map_delete :: "'k \<Rightarrow> ('k, 'v) jsmap \<Rightarrow> ('k, 'v) jsmap" where
  "map_delete k m = AList.delete k m"

definition map_size :: "('k, 'v) jsmap \<Rightarrow> nat" where
  "map_size m = length m"

definition set_has :: "'a \<Rightarrow> 'a jsset \<Rightarrow> bool" where
  "set_has x xs = (x \<in> set xs)"

definition set_add :: "'a \<Rightarrow> 'a jsset \<Rightarrow> 'a jsset" where
  "set_add x xs = (if x \<in> set xs then xs else xs @ [x])"

definition set_delete :: "'a \<Rightarrow> 'a jsset \<Rightarrow> 'a jsset" where
  "set_delete x xs = filter (\<lambda>y. y \<noteq> x) xs"

definition set_size :: "'a jsset \<Rightarrow> nat" where
  "set_size xs = length xs"

subsection \<open>Values, users, events\<close>

type_synonym sid = string  \<comment> \<open>\<open>socket.id\<close>\<close>
type_synonym rid = string  \<comment> \<open>a room id; Socket.io room names and socket ids are both strings\<close>

text \<open>Payloads the relay passes on without looking inside (message text, SDP, ICE, errors).\<close>

datatype jsval =
    JUndefined
  | JNull
  | JBool bool
  | JNum int
  | JStr string
  | JArr "jsval list"
  | JObj "(string \<times> jsval) list"

text \<open>A field that may be \<open>undefined\<close> is an option. \<open>userData\<close> is the argument of \<open>user:join\<close>.\<close>

record user_data =
  ud_userId :: "string option"
  ud_username :: "string option"
  ud_email :: "string option"

text \<open>The object stored in \<open>activeUsers\<close>: \<open>{ id, userId, username, email }\<close>.\<close>

record user =
  ident :: sid
  userId :: "string option"
  username :: "string option"
  email :: "string option"

text \<open>The argument of \<open>chat:send-message\<close>: \<open>{ roomId, message, userId, username }\<close>.\<close>

record chat_data =
  d_roomId :: rid
  d_message :: jsval
  d_userId :: "string option"
  d_username :: "string option"

text \<open>
  \<open>messageData\<close>. The id \<open>`msg-${Date.now()}-${socket.id}`\<close> is kept as the pair of its two
  interpolated parts; the timestamp is the ISO string read from the clock.
\<close>

record message_data =
  m_id :: "nat \<times> sid"
  m_roomId :: rid
  m_message :: jsval
  m_userId :: "string option"
  m_username :: "string option"
  m_timestamp :: string

text \<open>The events the server emits, each with the fields of its payload in source order.\<close>

datatype event =
    ChatUserJoined "string option" "string option" string  \<comment> \<open>userId, username, timestamp\<close>
  | ChatRoomJoined rid nat  \<comment> \<open>roomId, userCount\<close>
  | ChatReceiveMessage message_data
  | ChatUserLeft "string option" "string option" string  \<comment> \<open>userId, username, timestamp\<close>
  | VideoAllUsers "(sid \<times> string option \<times> string option) list"  \<comment> \<open>socketId, userId, username\<close>
  | VideoUserJoined sid "string option" "string option"  \<comment> \<open>socketId, userId, username\<close>
  | VideoReceiveOffer jsval sid "string option"  \<comment> \<open>offer, from, username\<close>
  | VideoReceiveAnswer jsval sid  \<comment> \<open>answer, from\<close>
  | VideoIceCandidate jsval sid  \<comment> \<open>candidate, from\<close>
  | VideoUserLeft sid "string option" "string option"  \<comment> \<open>socketId, userId, username\<close>

text \<open>The console lines, each with the values interpolated into it.\<close>

datatype logline =
    LogClientConnected sid string  \<comment> \<open>socket id, transport name\<close>
  | LogConnectionOrigin "string option"
  | LogUserAgent "string option"
  | LogRequest string string string string  \<comment> \<open>time, method, url, origin\<close>
  | LogHeaders jsval
  | LogUserJoined "string option"
  | LogChatJoined string rid
  | LogMessage rid "string option" jsval
  | LogChatLeft string rid
  | LogVideoJoined string rid
  | LogSendingOffer sid sid
  | LogSendingAnswer sid sid
  | LogVideoLeft string rid
  | LogClientDisconnected sid
  | LogSocketError jsval
  | LogConnectionError jsval

text \<open>
  \<open>io.to(room)\<close> addresses every socket in the room. \<open>socket.to(room)\<close> addresses the
  room with the room named \<open>socket.id\<close> excepted: every socket in the room that is not in
  the room named by the id of \<open>socket\<close>. A packet the transport kept for a socket whose
  connection state it recovers is sent again to that socket alone.
\<close>

datatype target = IoTo rid | SocketTo sid rid | Resend sid

text \<open>
  An emission records how it was addressed, the event, and the sockets the transport hands
  it to at that moment.
\<close>

datatype effect = Console logline | Emit target event "sid list"

text \<open>What the \<open>connection\<close> handler reads of a new socket.\<close>

record handshake =
  transport :: string
  hs_origin :: "string option"
  user_agent :: "string option"

text \<open>
  What the transport hands back to a socket whose connection state it recovers: the rooms
  the socket was in when its connection closed, and the payloads of the packets it missed.
  The store of sessions and packets is the transport's own and is not part of the relay
  state below; what it restores comes with the connection, as the clock readings come
  with an event.
\<close>

record session =
  se_rooms :: "rid list"
  se_missed :: "event list"

subsection \<open>The relay state\<close>

text \<open>
  The three stores of the source, and the rooms of the Socket.io adapter (room name to the
  sockets joined to it), which \<open>socket.join\<close> and \<open>socket.leave\<close> write and every \<open>to(...)\<close>
  reads.
\<close>

record relay =
  activeUsers :: "(sid, user) jsmap"
  chatRooms :: "(rid, sid jsset) jsmap"
  videoRooms :: "(rid, sid jsset) jsmap"
  sio_rooms :: "(rid, sid jsset) jsmap"

definition init :: relay where
  "init = \<lparr>activeUsers = [], chatRooms = [], videoRooms = [], sio_rooms = []\<rparr>"

subsection \<open>The transport: Socket.io rooms\<close>

text \<open>
  Socket.io is a dependency of the repository. Its in-memory adapter keeps a map from room
  name to the set of socket ids in the room; a socket is put into the room named by its own
  id when it connects; \<open>join\<close> creates the room if needed and adds the socket; \<open>leave\<close>
  removes it and drops the room once it is empty; a closing socket leaves all its rooms
  before its \<open>disconnect\<close> event fires. A broadcast goes to the sockets of the rooms it
  names, less the sockets of the rooms it excepts; \<open>socket.to\<close> excepts the room named
  \<open>socket.id\<close>, so it leaves out the sender only while the sender is in that room, and it
  leaves out every other socket that has joined a room of that name.
\<close>

definition room_add :: "rid \<Rightarrow> sid \<Rightarrow> (rid, sid jsset) jsmap \<Rightarrow> (rid, sid jsset) jsmap" where
  \<comment> \<open>\<open>if (!m.has(roomId)) m.set(roomId, new Set()); m.get(roomId).add(id)\<close>\<close>
  "room_add roomId s m =
     (let m1 = (if \<not> map_has roomId m then map_set roomId [] m else m)
      in case map_get roomId m1 of
           None \<Rightarrow> m1
         | Some users \<Rightarrow> map_set roomId (set_add s users) m1)"

definition room_remove :: "rid \<Rightarrow> sid \<Rightarrow> (rid, sid jsset) jsmap \<Rightarrow> (rid, sid jsset) jsmap" where
  \<comment> \<open>\<open>if (m.has(roomId)) { m.get(roomId).delete(id); if (m.get(roomId).size === 0) m.delete(roomId) }\<close>\<close>
  "room_remove roomId s m =
     (case map_get roomId m of
        None \<Rightarrow> m
      | Some users \<Rightarrow>
          (let m1 = map_set roomId (set_delete s users) m
           in if set_size (set_delete s users) = 0 then map_delete roomId m1 else m1))"

definition socket_join :: "sid \<Rightarrow> rid \<Rightarrow> relay \<Rightarrow> relay" where
  "socket_join s roomId st = st\<lparr>sio_rooms := room_add roomId s (sio_rooms st)\<rparr>"

definition socket_leave :: "sid \<Rightarrow> rid \<Rightarrow> relay \<Rightarrow> relay" where
  "socket_leave s roomId st = st\<lparr>sio_rooms := room_remove roomId s (sio_rooms st)\<rparr>"

fun leave_all :: "sid \<Rightarrow> (rid, sid jsset) jsmap \<Rightarrow> (rid, sid jsset) jsmap" where
  "leave_all s [] = []"
| "leave_all s ((r, users) # m) =
     (if set_delete s users = [] then leave_all s m else (r, set_delete s users) # leave_all s m)"

definition room_members :: "relay \<Rightarrow> rid \<Rightarrow> sid list" where
  "room_members st roomId = (case map_get roomId (sio_rooms st) of None \<Rightarrow> [] | Some users \<Rightarrow> users)"

definition io_to :: "relay \<Rightarrow> rid \<Rightarrow> event \<Rightarrow> effect" where
  "io_to st roomId ev = Emit (IoTo roomId) ev (room_members st roomId)"

definition socket_to :: "relay \<Rightarrow> sid \<Rightarrow> rid \<Rightarrow> event \<Rightarrow> effect" where
  "socket_to st s roomId ev =
     Emit (SocketTo s roomId) ev
       (filter (\<lambda>t. \<not> set_has t (room_members st s)) (room_members st roomId))"

text \<open>
  With the \<open>connectionStateRecovery\<close> option the server keeps, for a while, the id and the
  rooms of a socket whose connection broke. A client that comes back in time is given a
  socket with the same id, which the transport joins to each of those rooms again and to
  which it sends the packets missed in between, before the \<open>connection\<close> event fires.
\<close>

definition restore_rooms :: "sid \<Rightarrow> rid list \<Rightarrow> relay \<Rightarrow> relay" where
  \<comment> \<open>\<open>previousSession.rooms.forEach((room) => this.join(room))\<close>\<close>
  "restore_rooms s rooms st = fold (socket_join s) rooms st"

definition resend_missed :: "sid \<Rightarrow> event list \<Rightarrow> effect list" where
  "resend_missed s missed = map (\<lambda>ev. Emit (Resend s) ev [s]) missed"

text \<open>The events one socket is handed by a list of effects, in order.\<close>

fun received_by :: "sid \<Rightarrow> effect list \<Rightarrow> event list" where
  "received_by t [] = []"
| "received_by t (Console l # es) = received_by t es"
| "received_by t (Emit tg ev rs # es) =
     (if t \<in> set rs then ev # received_by t es else received_by t es)"

subsection \<open>Optional chaining and \<open>||\<close>\<close>

definition opt_userId :: "user option \<Rightarrow> string option" where
  \<comment> \<open>\<open>user?.userId\<close>\<close>
  "opt_userId u = (case u of None \<Rightarrow> None | Some x \<Rightarrow> userId x)"

definition opt_username :: "user option \<Rightarrow> string option" where
  \<comment> \<open>\<open>user?.username\<close>\<close>
  "opt_username u = (case u of None \<Rightarrow> None | Some x \<Rightarrow> username x)"

definition js_or :: "string option \<Rightarrow> string option \<Rightarrow> string option" where
  \<comment> \<open>\<open>a || b\<close>: \<open>undefined\<close> and the empty string are falsy\<close>
  "js_or a b = (case a of None \<Rightarrow> b | Some v \<Rightarrow> if v = [] then b else Some v)"

definition js_or_str :: "string option \<Rightarrow> string \<Rightarrow> string" where
  \<comment> \<open>\<open>a || socket.id\<close>\<close>
  "js_or_str a d = (case a of None \<Rightarrow> d | Some v \<Rightarrow> if v = [] then d else v)"

subsection \<open>The socket event handlers\<close>

text \<open>
  Each handler takes the socket's id, the event's argument and the state. A handler that
  reads the clock takes the reading (\<open>now\<close> for \<open>Date.now()\<close>, \<open>ts\<close> for
  \<open>new Date().toISOString()\<close>) as an argument; one run of a handler uses one reading.
\<close>

text \<open>
  A connection. \<open>recovered\<close> is \<open>None\<close> for a new socket and the restored session for a
  socket whose connection state the transport recovers. The transport puts a recovered
  socket back into the rooms of its session and sends it what it missed, joins the socket
  to the room named by its id, and then \<open>io.on('connection')\<close> runs, which logs.
\<close>

definition on_connection ::
  "sid \<Rightarrow> handshake \<Rightarrow> session option \<Rightarrow> relay \<Rightarrow> relay \<times> effect list" where
  "on_connection s hs recovered st =
     (socket_join s s
        (case recovered of None \<Rightarrow> st | Some se \<Rightarrow> restore_rooms s (se_rooms se) st),
      (case recovered of None \<Rightarrow> [] | Some se \<Rightarrow> resend_missed s (se_missed se)) @
      [Console (LogClientConnected s (transport hs)),
       Console (LogConnectionOrigin (hs_origin hs)),
       Console (LogUserAgent (user_agent hs))])"

definition user_join :: "sid \<Rightarrow> user_data \<Rightarrow> relay \<Rightarrow> relay \<times> effect list" where
  "user_join s userData st =
     (st\<lparr>activeUsers :=
          map_set s \<lparr>ident = s, userId = ud_userId userData,
                     username = ud_username userData, email = ud_email userData\<rparr>
            (activeUsers st)\<rparr>,
      [Console (LogUserJoined (ud_username userData))])"

definition room_count :: "rid \<Rightarrow> (rid, sid jsset) jsmap \<Rightarrow> nat" where
  \<comment> \<open>\<open>m.get(roomId).size\<close>, read only where the entry exists\<close>
  "room_count roomId m = (case map_get roomId m of None \<Rightarrow> 0 | Some users \<Rightarrow> set_size users)"

definition chat_join_room :: "string \<Rightarrow> sid \<Rightarrow> rid \<Rightarrow> relay \<Rightarrow> relay \<times> effect list" where
  "chat_join_room ts s roomId st =
     (let st1 = socket_join s roomId st;
          st2 = st1\<lparr>chatRooms := room_add roomId s (chatRooms st1)\<rparr>;
          u = map_get s (activeUsers st2)
      in (st2,
          [Console (LogChatJoined (js_or_str (opt_username u) s) roomId),
           socket_to st2 s roomId (ChatUserJoined (opt_userId u) (opt_username u) ts),
           io_to st2 s (ChatRoomJoined roomId (room_count roomId (chatRooms st2)))]))"

definition chat_send_message :: "nat \<Rightarrow> string \<Rightarrow> sid \<Rightarrow> chat_data \<Rightarrow> relay \<Rightarrow> relay \<times> effect list" where
  "chat_send_message now ts s data st =
     (let u = map_get s (activeUsers st);
          messageData = \<lparr>m_id = (now, s),
                         m_roomId = d_roomId data,
                         m_message = d_message data,
                         m_userId = js_or (d_userId data) (opt_userId u),
                         m_username = js_or (d_username data) (opt_username u),
                         m_timestamp = ts\<rparr>
      in (st,
          [Console (LogMessage (d_roomId data) (m_username messageData) (d_message data)),
           io_to st (d_roomId data) (ChatReceiveMessage messageData)]))"

definition chat_leave_room :: "string \<Rightarrow> sid \<Rightarrow> rid \<Rightarrow> relay \<Rightarrow> relay \<times> effect list" where
  "chat_leave_room ts s roomId st =
     (let st1 = socket_leave s roomId st;
          st2 = st1\<lparr>chatRooms := room_remove roomId s (chatRooms st1)\<rparr>;
          u = map_get s (activeUsers st2)
      in (st2,
          [Console (LogChatLeft (js_or_str (opt_username u) s) roomId),
           socket_to st2 s roomId (ChatUserLeft (opt_userId u) (opt_username u) ts)]))"

definition other_users :: "sid \<Rightarrow> rid \<Rightarrow> relay \<Rightarrow> (sid \<times> string option \<times> string option) list" where
  \<comment> \<open>\<open>Array.from(videoRooms.get(roomId)).filter(id => id !== socket.id).map(...)\<close>\<close>
  "other_users s roomId st =
     map (\<lambda>i. (i, opt_userId (map_get i (activeUsers st)), opt_username (map_get i (activeUsers st))))
       (filter (\<lambda>i. i \<noteq> s)
          (case map_get roomId (videoRooms st) of None \<Rightarrow> [] | Some users \<Rightarrow> users))"

definition video_join_room :: "sid \<Rightarrow> rid \<Rightarrow> relay \<Rightarrow> relay \<times> effect list" where
  "video_join_room s roomId st =
     (let st1 = socket_join s roomId st;
          st2 = st1\<lparr>videoRooms := room_add roomId s (videoRooms st1)\<rparr>;
          u = map_get s (activeUsers st2)
      in (st2,
          [Console (LogVideoJoined (js_or_str (opt_username u) s) roomId),
           io_to st2 s (VideoAllUsers (other_users s roomId st2)),
           socket_to st2 s roomId (VideoUserJoined s (opt_userId u) (opt_username u))]))"

definition video_send_offer :: "sid \<Rightarrow> jsval \<Rightarrow> sid \<Rightarrow> relay \<Rightarrow> relay \<times> effect list" where
  "video_send_offer s offer to st =
     (st,
      [Console (LogSendingOffer s to),
       io_to st to (VideoReceiveOffer offer s (opt_username (map_get s (activeUsers st))))])"

definition video_send_answer :: "sid \<Rightarrow> jsval \<Rightarrow> sid \<Rightarrow> relay \<Rightarrow> relay \<times> effect list" where
  "video_send_answer s answer to st =
     (st,
      [Console (LogSendingAnswer s to),
       io_to st to (VideoReceiveAnswer answer s)])"

definition video_ice_candidate :: "sid \<Rightarrow> jsval \<Rightarrow> sid \<Rightarrow> relay \<Rightarrow> relay \<times> effect list" where
  "video_ice_candidate s candidate to st =
     (st, [io_to st to (VideoIceCandidate candidate s)])"

definition video_leave_room :: "sid \<Rightarrow> rid \<Rightarrow> relay \<Rightarrow> relay \<times> effect list" where
  "video_leave_room s roomId st =
     (let st1 = socket_leave s roomId st;
          st2 = st1\<lparr>videoRooms := room_remove roomId s (videoRooms st1)\<rparr>;
          u = map_get s (activeUsers st2)
      in (st2,
          [Console (LogVideoLeft (js_or_str (opt_username u) s) roomId),
           socket_to st2 s roomId (VideoUserLeft s (opt_userId u) (opt_username u))]))"

text \<open>
  The two \<open>forEach\<close> loops of the \<open>disconnect\<close> handler: every entry is visited in map
  order; where the set has the socket it is deleted from the set and the departure is
  emitted to the room. The entry itself stays in the map.
\<close>

fun remove_from_all ::
  "sid \<Rightarrow> (rid \<Rightarrow> effect) \<Rightarrow> (rid, sid jsset) jsmap \<Rightarrow> (rid, sid jsset) jsmap \<times> effect list" where
  "remove_from_all s emit [] = ([], [])"
| "remove_from_all s emit ((roomId, users) # m) =
     (let (m', es) = remove_from_all s emit m
      in if set_has s users
         then ((roomId, set_delete s users) # m', emit roomId # es)
         else ((roomId, users) # m', es))"

definition disconnect :: "string \<Rightarrow> sid \<Rightarrow> relay \<Rightarrow> relay \<times> effect list" where
  "disconnect ts s st =
     (let u = map_get s (activeUsers st);
          (cr, es1) = remove_from_all s
             (\<lambda>roomId. socket_to st s roomId (ChatUserLeft (opt_userId u) (opt_username u) ts))
             (chatRooms st);
          (vr, es2) = remove_from_all s
             (\<lambda>roomId. socket_to st s roomId (VideoUserLeft s (opt_userId u) (opt_username u)))
             (videoRooms st)
      in (st\<lparr>activeUsers := map_delete s (activeUsers st), chatRooms := cr, videoRooms := vr\<rparr>,
          Console (LogClientDisconnected s) # es1 @ es2))"

definition on_disconnect :: "string \<Rightarrow> sid \<Rightarrow> relay \<Rightarrow> relay \<times> effect list" where
  \<comment> \<open>the transport takes the closing socket out of all its rooms, then the handler runs\<close>
  "on_disconnect ts s st = disconnect ts s (st\<lparr>sio_rooms := leave_all s (sio_rooms st)\<rparr>)"

definition socket_error :: "sid \<Rightarrow> jsval \<Rightarrow> relay \<Rightarrow> relay \<times> effect list" where
  "socket_error s err st = (st, [Console (LogSocketError err)])"

definition connect_error :: "jsval \<Rightarrow> relay \<Rightarrow> relay \<times> effect list" where
  "connect_error err st = (st, [Console (LogConnectionError err)])"

subsection \<open>The HTTP routes\<close>

datatype http_body =
    StatusBody string string string nat nat nat
    \<comment> \<open>message, version, status, activeUsers, chatRooms, videoRooms\<close>
  | HealthBody string  \<comment> \<open>status\<close>

definition get_root :: "relay \<Rightarrow> http_body" where
  "get_root st =
     StatusBody ''Remote Work Platform API'' ''1.0.0'' ''running''
       (map_size (activeUsers st)) (map_size (chatRooms st)) (map_size (videoRooms st))"

definition get_api_health :: "relay \<Rightarrow> http_body" where
  "get_api_health st = HealthBody ''healthy''"

text \<open>
  The middleware that runs before every route: two console lines, from the clock, the
  request's method and url, its \<open>origin\<close> header (\<open>'unknown'\<close> when there is none) and its
  headers.
\<close>

definition log_request :: "string \<Rightarrow> string \<Rightarrow> string \<Rightarrow> string option \<Rightarrow> jsval \<Rightarrow> effect list" where
  "log_request ts method url req_origin headers =
     [Console (LogRequest ts method url (js_or_str req_origin ''unknown'')),
      Console (LogHeaders headers)]"

text \<open>The routes registered on the Express app, in registration order.\<close>

definition app_routes :: "((string \<times> string) \<times> (relay \<Rightarrow> http_body)) list" where
  "app_routes = [((''GET'', ''/''), get_root), ((''GET'', ''/api/health''), get_api_health)]"

subsection \<open>The options of the Socket.io server\<close>

record cors_options =
  origin :: string
  methods :: "string list"
  credentials :: bool
  allowEIO3 :: bool

record recovery_options =
  maxDisconnectionDuration :: nat
  skipMiddlewares :: bool

record server_options =
  cors :: cors_options
  transports :: "string list"
  allowUpgrades :: bool
  pingInterval :: nat
  pingTimeout :: nat
  connectionStateRecovery :: "recovery_options option"
  httpCompression_threshold :: nat
  perMessageDeflate_threshold :: nat
  cookie :: bool
  maxHttpBufferSize :: nat

text \<open>
  The object literal passed to \<open>new Server(httpServer, {...})\<close>; \<open>client_url\<close> is
  \<open>process.env.CLIENT_URL\<close>. The literal gives \<open>maxHttpBufferSize\<close> twice (\<open>1e6\<close>, then
  \<open>1e7\<close>); the later one is the value of the property.
\<close>

definition io_options :: "string option \<Rightarrow> server_options" where
  "io_options client_url =
     \<lparr>cors = \<lparr>origin = js_or_str client_url ''http://localhost:5173'',
               methods = [''GET'', ''POST''], credentials = True, allowEIO3 = True\<rparr>,
      transports = [''websocket'', ''polling''],
      allowUpgrades = True,
      pingInterval = 25000,
      pingTimeout = 60000,
      connectionStateRecovery =
        Some \<lparr>maxDisconnectionDuration = 2 * 60 * 1000, skipMiddlewares = True\<rparr>,
      httpCompression_threshold = 1024,
      perMessageDeflate_threshold = 1024,
      cookie = False,
      maxHttpBufferSize = 10000000\<rparr>"

text \<open>
  Socket.io's default for \<open>connectionStateRecovery\<close> is \<open>undefined\<close>: a server created
  without the option does not recover the state of a socket that reconnects.
\<close>

definition default_connectionStateRecovery :: "recovery_options option" where
  "default_connectionStateRecovery = None"

subsection \<open>Runs of the relay\<close>

text \<open>What a socket can make the server do, and the handler each event runs.\<close>

datatype input =
    Connection handshake "session option"
  | UserJoin user_data
  | ChatJoinRoom rid
  | ChatSendMessage chat_data
  | ChatLeaveRoom rid
  | VideoJoinRoom rid
  | VideoSendOffer jsval sid
  | VideoSendAnswer jsval sid
  | VideoIce jsval sid
  | VideoLeaveRoom rid
  | Disconnect
  | SocketError jsval

fun handle :: "nat \<Rightarrow> string \<Rightarrow> sid \<Rightarrow> input \<Rightarrow> relay \<Rightarrow> relay \<times> effect list" where
  "handle now ts s (Connection hs recovered) st = on_connection s hs recovered st"
| "handle now ts s (UserJoin userData) st = user_join s userData st"
| "handle now ts s (ChatJoinRoom roomId) st = chat_join_room ts s roomId st"
| "handle now ts s (ChatSendMessage data) st = chat_send_message now ts s data st"
| "handle now ts s (ChatLeaveRoom roomId) st = chat_leave_room ts s roomId st"
| "handle now ts s (VideoJoinRoom roomId) st = video_join_room s roomId st"
| "handle now ts s (VideoSendOffer offer to) st = video_send_offer s offer to st"
| "handle now ts s (VideoSendAnswer answer to) st = video_send_answer s answer to st"
| "handle now ts s (VideoIce candidate to) st = video_ice_candidate s candidate to st"
| "handle now ts s (VideoLeaveRoom roomId) st = video_leave_room s roomId st"
| "handle now ts s Disconnect st = on_disconnect ts s st"
| "handle now ts s (SocketError err) st = socket_error s err st"

text \<open>A run: the events in arrival order, each with its clock readings and its socket.\<close>

type_synonym arrival = "nat \<times> string \<times> sid \<times> input"

fun run :: "arrival list \<Rightarrow> relay \<Rightarrow> relay" where
  "run [] st = st"
| "run ((now, ts, s, i) # tr) st = run tr (fst (handle now ts s i st))"

text \<open>
  An arrival after which socket \<open>s\<close> is still in Socket.io room \<open>r\<close>: anything but a
  \<open>chat:leave-room\<close> or a \<open>video:leave-room\<close> for \<open>r\<close>, or the disconnection, of \<open>s\<close> itself.
  Both leave handlers call \<open>socket.leave(roomId)\<close> on the one name space of rooms.
\<close>

fun keeps_joined :: "sid \<Rightarrow> rid \<Rightarrow> arrival \<Rightarrow> bool" where
  "keeps_joined s r (now, ts, s', i) =
     (\<not> (s' = s \<and> (i = ChatLeaveRoom r \<or> i = VideoLeaveRoom r \<or> i = Disconnect)))"

subsection \<open>Invariants of the stores\<close>

text \<open>Keys of a \<open>Map\<close> and elements of a \<open>Set\<close> do not repeat.\<close>

definition well_formed_rooms :: "(rid, sid jsset) jsmap \<Rightarrow> bool" where
  "well_formed_rooms m = (distinct (map fst m) \<and> (\<forall>p \<in> set m. distinct (snd p)))"

definition well_formed :: "relay \<Rightarrow> bool" where
  "well_formed st =
     (distinct (map fst (activeUsers st)) \<and> well_formed_rooms (chatRooms st) \<and>
      well_formed_rooms (videoRooms st) \<and> well_formed_rooms (sio_rooms st))"

text \<open>No entry of a room map holds the empty set.\<close>

definition rooms_nonempty :: "(rid, sid jsset) jsmap \<Rightarrow> bool" where
  "rooms_nonempty m = (\<forall>p \<in> set m. snd p \<noteq> [])"

subsection \<open>The sets and the rooms\<close>

text \<open>
  The sockets the relay lists for a room, and the states in which every socket listed in a
  set of \<open>chatRooms\<close> or \<open>videoRooms\<close> is in the Socket.io room of that name.
\<close>

definition listed :: "(rid, sid jsset) jsmap \<Rightarrow> rid \<Rightarrow> sid list" where
  "listed m r = (case map_get r m of None \<Rightarrow> [] | Some us \<Rightarrow> us)"

definition listed_in_rooms :: "relay \<Rightarrow> bool" where
  "listed_in_rooms st =
     (list_all (\<lambda>r. list_all (\<lambda>t. set_has t (room_members st r)) (listed (chatRooms st) r))
        (map fst (chatRooms st)) \<and>
      list_all (\<lambda>r. list_all (\<lambda>t. set_has t (room_members st r)) (listed (videoRooms st) r))
        (map fst (videoRooms st)))"

text \<open>
  Chat and video rooms share the names of the Socket.io rooms. A leave of one kind for a
  room in which the socket is listed under the other kind takes the socket out of the
  Socket.io room that the other kind still uses; every other event is of the same kind.
\<close>

fun same_kind_leave :: "relay \<Rightarrow> sid \<Rightarrow> input \<Rightarrow> bool" where
  "same_kind_leave st s (ChatLeaveRoom r) = (\<not> set_has s (listed (videoRooms st) r))"
| "same_kind_leave st s (VideoLeaveRoom r) = (\<not> set_has s (listed (chatRooms st) r))"
| "same_kind_leave st s i = True"

fun clean_run :: "arrival list \<Rightarrow> relay \<Rightarrow> bool" where
  "clean_run [] st = True"
| "clean_run ((now, ts, s, i) # tr) st =
     (same_kind_leave st s i \<and> clean_run tr (fst (handle now ts s i st)))"

subsection \<open>Sample runs\<close>

definition browser :: handshake where
  "browser = \<lparr>transport = ''websocket'', hs_origin = Some ''http://localhost:5173'',
              user_agent = None\<rparr>"

definition alice :: user_data where
  "alice = \<lparr>ud_userId = Some ''u1'', ud_username = Some ''alice'',
            ud_email = Some ''alice@example.org''\<rparr>"

definition bob :: user_data where
  "bob = \<lparr>ud_userId = Some ''u2'', ud_username = Some ''bob'', ud_email = None\<rparr>"

definition hello :: chat_data where
  "hello = \<lparr>d_roomId = ''w'', d_message = JStr ''hello'', d_userId = None, d_username = None\<rparr>"

definition three_connected :: relay where
  "three_connected = run
     [(0, ''t0'', ''a'', Connection browser None), (1, ''t1'', ''b'', Connection browser None),
      (2, ''t2'', ''c'', Connection browser None)] init"

definition chat_arrivals :: "arrival list" where
  "chat_arrivals =
     [(0, ''t0'', ''a'', Connection browser None), (1, ''t1'', ''a'', UserJoin alice),
      (2, ''t2'', ''b'', Connection browser None),
      (3, ''t3'', ''a'', ChatJoinRoom ''w''), (4, ''t4'', ''b'', ChatJoinRoom ''w'')]"

definition two_in_chat :: relay where
  "two_in_chat = run chat_arrivals init"

text \<open>As \<open>two_in_chat\<close>, and then \<open>a\<close> joins and leaves a call under the same room id.\<close>

definition a_left_call :: relay where
  "a_left_call = run
     [(0, ''t0'', ''a'', Connection browser None), (1, ''t1'', ''a'', UserJoin alice),
      (2, ''t2'', ''b'', Connection browser None),
      (3, ''t3'', ''a'', ChatJoinRoom ''w''), (4, ''t4'', ''b'', ChatJoinRoom ''w''),
      (5, ''t5'', ''a'', VideoJoinRoom ''w''), (6, ''t6'', ''a'', VideoLeaveRoom ''w'')] init"



definition call_arrivals :: "arrival list" where
  "call_arrivals =
     [(0, ''t0'', ''a'', Connection browser None), (1, ''t1'', ''a'', UserJoin alice),
      (2, ''t2'', ''b'', Connection browser None), (3, ''t3'', ''b'', UserJoin bob),
      (4, ''t4'', ''a'', ChatJoinRoom ''w''), (5, ''t5'', ''b'', ChatJoinRoom ''w''),
      (6, ''t6'', ''a'', VideoJoinRoom ''call''), (7, ''t7'', ''b'', VideoJoinRoom ''call'')]"

definition in_call :: relay where
  "in_call = run call_arrivals init"

text \<open>The state in which the \<open>disconnect\<close> handler of \<open>b\<close> starts: \<open>b\<close> is out of its rooms.\<close>

definition b_closing :: relay where
  "b_closing = in_call\<lparr>sio_rooms := leave_all ''b'' (sio_rooms in_call)\<rparr>"

definition a_alone :: relay where
  "a_alone = run
     [(0, ''t0'', ''a'', Connection browser None),
      (1, ''t1'', ''a'', ChatJoinRoom ''w''), (2, ''t2'', ''a'', VideoJoinRoom ''call'')] init"

definition a_closing :: relay where
  "a_closing = a_alone\<lparr>sio_rooms := leave_all ''a'' (sio_rooms a_alone)\<rparr>"

text \<open>Socket \<open>b\<close> has joined a chat room named by the socket id of \<open>a\<close>.\<close>

definition listener_in_a :: relay where
  "listener_in_a = run
     [(0, ''t0'', ''a'', Connection browser None), (1, ''t1'', ''b'', Connection browser None),
      (2, ''t2'', ''c'', Connection browser None), (3, ''t3'', ''b'', ChatJoinRoom ''a'')] init"


text \<open>Both sockets are in chat room \<open>w\<close>, and \<open>b\<close> is also in a room named by the id of \<open>a\<close>.\<close>

definition both_in_w_b_in_a :: relay where
  "both_in_w_b_in_a = run
     [(0, ''t0'', ''a'', Connection browser None), (1, ''t1'', ''b'', Connection browser None),
      (2, ''t2'', ''a'', ChatJoinRoom ''w''), (3, ''t3'', ''b'', ChatJoinRoom ''w''),
      (4, ''t4'', ''b'', ChatJoinRoom ''a'')] init"




text \<open>
  Socket \<open>a\<close> was in chat room \<open>w\<close> when its connection broke, and comes back with its
  connection state recovered: the transport restores its rooms and sends it the message it
  missed.
\<close>

definition a_session :: session where
  "a_session = \<lparr>se_rooms = [''a'', ''w''],
                 se_missed = [ChatReceiveMessage
                    \<lparr>m_id = (6, ''b''), m_roomId = ''w'', m_message = JStr ''hello'',
                     m_userId = None, m_username = None, m_timestamp = ''t6''\<rparr>]\<rparr>"

definition a_recovered :: "relay \<times> effect list" where
  "a_recovered =
     on_connection ''a'' browser (Some a_session) (fst (on_disconnect ''t5'' ''a'' two_in_chat))"

section \<open>Properties\<close>

subsection \<open>Containers and rooms\<close>

lemma set_set_add: "set (set_add x xs) = insert x (set xs)"
  by (auto simp: set_add_def)

lemma set_set_delete: "set (set_delete x xs) = set xs - {x}"
  by (auto simp: set_delete_def)

lemma set_delete_absent: "x \<notin> set xs \<Longrightarrow> set_delete x xs = xs"
  by (induction xs) (auto simp: set_delete_def)

lemma set_add_present: "x \<in> set xs \<Longrightarrow> set_add x xs = xs"
  by (simp add: set_add_def)

lemma distinct_set_add: "distinct xs \<Longrightarrow> distinct (set_add x xs)"
  by (simp add: set_add_def)

lemma distinct_set_delete: "distinct xs \<Longrightarrow> distinct (set_delete x xs)"
  by (simp add: set_delete_def)


lemma map_size_card: "distinct (map fst m) \<Longrightarrow> map_size m = card (dom (map_of m))"
proof -
  assume "distinct (map fst m)"
  then have "card (set (map fst m)) = length (map fst m)" by (rule distinct_card)
  then show ?thesis by (simp add: map_size_def dom_map_of_conv_image_fst)
qed

lemma set_update_subset: "set (AList.update k v m) \<subseteq> insert (k, v) (set m)"
  by (induction m) auto

lemma set_delete_subset: "set (AList.delete k m) \<subseteq> set m"
  by (auto simp: AList.delete_eq)

text \<open>What adding to and removing from a room map come to.\<close>

lemma room_add_eq:
  "room_add r s m =
     AList.update r (set_add s (case map_of m r of None \<Rightarrow> [] | Some us \<Rightarrow> us)) m"
proof (cases "map_of m r")
  case None
  then show ?thesis
    by (simp add: room_add_def map_has_def map_get_def map_set_def update_conv')
next
  case (Some us)
  then show ?thesis
    by (simp add: room_add_def map_has_def map_get_def map_set_def)
qed

lemma room_remove_eq:
  "room_remove r s m =
     (case map_of m r of
        None \<Rightarrow> m
      | Some us \<Rightarrow> if set_delete s us = [] then AList.delete r m
                   else AList.update r (set_delete s us) m)"
  by (simp add: room_remove_def map_get_def map_set_def map_delete_def set_size_def
                delete_update_same split: option.splits)

lemma map_get_room_add:
  "map_get r' (room_add r s m) =
     (if r' = r then Some (set_add s (case map_get r m of None \<Rightarrow> [] | Some us \<Rightarrow> us))
      else map_get r' m)"
  by (simp add: room_add_eq map_get_def update_conv')

lemma map_get_room_remove:
  "map_get r' (room_remove r s m) =
     (if r' = r
      then (case map_get r m of
              None \<Rightarrow> None
            | Some us \<Rightarrow> if set_delete s us = [] then None else Some (set_delete s us))
      else map_get r' m)"
  by (simp add: room_remove_eq map_get_def update_conv' delete_conv' split: option.splits)

lemma room_add_present:
  "map_get r m = Some us \<Longrightarrow> s \<in> set us \<Longrightarrow> room_add r s m = m"
  by (simp add: room_add_eq map_get_def set_add_present update_triv)

lemma room_remove_last:
  "map_get r m = Some us \<Longrightarrow> set us = {s} \<Longrightarrow> \<not> map_has r (room_remove r s m)"
proof -
  assume g: "map_get r m = Some us" and l: "set us = {s}"
  have "set (set_delete s us) = {}" by (simp add: set_set_delete l)
  then have "set_delete s us = []" by simp
  then show ?thesis
    using g by (simp add: map_has_def map_get_room_remove [unfolded map_get_def] map_get_def)
qed

lemma map_get_map_snd:
  "map_get r (map (\<lambda>p. (fst p, f (snd p))) m) = map_option f (map_get r m)"
  by (induction m) (auto simp: map_get_def)

lemma fst_remove_from_all:
  "fst (remove_from_all s e m) = map (\<lambda>p. (fst p, set_delete s (snd p))) m"
  by (induction m) (auto simp: set_has_def set_delete_absent split: prod.splits)

lemma snd_remove_from_all:
  "snd (remove_from_all s e m) = map (\<lambda>p. e (fst p)) (filter (\<lambda>p. s \<in> set (snd p)) m)"
  by (induction m) (auto simp: set_has_def split: prod.splits)

lemma room_members_simps:
  "room_members (st\<lparr>chatRooms := c\<rparr>) r = room_members st r"
  "room_members (st\<lparr>videoRooms := v\<rparr>) r = room_members st r"
  "room_members (st\<lparr>activeUsers := a\<rparr>) r = room_members st r"
  by (simp_all add: room_members_def)

lemma received_by_append:
  "received_by t (es @ fs) = received_by t es @ received_by t fs"
  by (induction es rule: received_by.induct) auto

lemma received_by_socket_to:
  "ev \<in> set (received_by t (map (\<lambda>p. socket_to st s (fst p) ev) m)) \<longleftrightarrow>
     (\<exists>p \<in> set m. t \<notin> set (room_members st s) \<and> t \<in> set (room_members st (fst p)))"
  by (induction m) (auto simp: socket_to_def set_has_def)

subsection \<open>The stores stay well formed\<close>

lemma well_formed_rooms_update:
  "well_formed_rooms m \<Longrightarrow> distinct us \<Longrightarrow> well_formed_rooms (AList.update r us m)"
  using set_update_subset [of r us m] by (auto simp: well_formed_rooms_def distinct_update)

lemma well_formed_rooms_delete: "well_formed_rooms m \<Longrightarrow> well_formed_rooms (AList.delete r m)"
  using set_delete_subset [of r m] by (auto simp: well_formed_rooms_def distinct_delete)

lemma well_formed_rooms_lookup:
  "well_formed_rooms m \<Longrightarrow> map_of m r = Some us \<Longrightarrow> distinct us"
  by (auto simp: well_formed_rooms_def dest: map_of_SomeD)

lemma well_formed_rooms_room_add: "well_formed_rooms m \<Longrightarrow> well_formed_rooms (room_add r s m)"
proof -
  assume w: "well_formed_rooms m"
  have "distinct (set_add s (case map_of m r of None \<Rightarrow> [] | Some us \<Rightarrow> us))"
    using well_formed_rooms_lookup [OF w, of r]
    by (cases "map_of m r") (simp_all add: distinct_set_add set_add_def)
  then show ?thesis
    unfolding room_add_eq by (rule well_formed_rooms_update [OF w])
qed

lemma well_formed_rooms_room_remove:
  "well_formed_rooms m \<Longrightarrow> well_formed_rooms (room_remove r s m)"
proof -
  assume w: "well_formed_rooms m"
  show ?thesis
  proof (cases "map_of m r")
    case None
    then show ?thesis by (simp add: room_remove_eq w)
  next
    case (Some us)
    have "distinct (set_delete s us)"
      using well_formed_rooms_lookup [OF w Some] by (rule distinct_set_delete)
    then show ?thesis
      by (simp add: room_remove_eq Some well_formed_rooms_update well_formed_rooms_delete w)
  qed
qed

lemma well_formed_rooms_clear:
  "well_formed_rooms m \<Longrightarrow> well_formed_rooms (map (\<lambda>p. (fst p, set_delete s (snd p))) m)"
  by (auto simp: well_formed_rooms_def comp_def distinct_set_delete)

lemma keys_leave_all: "(r, us) \<in> set (leave_all s m) \<Longrightarrow> r \<in> fst ` set m"
proof (induction m)
  case Nil
  then show ?case by simp
next
  case (Cons p m)
  obtain r' us' where p: "p = (r', us')" by (cases p)
  from Cons.prems have "(r, us) = (r', set_delete s us') \<or> (r, us) \<in> set (leave_all s m)"
    by (simp add: p split: if_splits)
  then show ?case
  proof
    assume "(r, us) = (r', set_delete s us')"
    then show ?thesis by (simp add: p)
  next
    assume "(r, us) \<in> set (leave_all s m)"
    then have "r \<in> fst ` set m" by (rule Cons.IH)
    then show ?thesis by simp
  qed
qed

lemma distinct_in_leave_all:
  "\<forall>p \<in> set m. distinct (snd p) \<Longrightarrow> (r, us) \<in> set (leave_all s m) \<Longrightarrow> distinct us"
proof (induction m)
  case Nil
  then show ?case by simp
next
  case (Cons p m)
  obtain r' us' where p: "p = (r', us')" by (cases p)
  from Cons.prems(2) have "(r, us) = (r', set_delete s us') \<or> (r, us) \<in> set (leave_all s m)"
    by (simp add: p split: if_splits)
  then show ?case
  proof
    assume "(r, us) = (r', set_delete s us')"
    then show ?thesis using Cons.prems(1) by (simp add: p distinct_set_delete)
  next
    assume "(r, us) \<in> set (leave_all s m)"
    then show ?thesis using Cons.IH Cons.prems(1) by simp
  qed
qed

lemma distinct_keys_leave_all: "distinct (map fst m) \<Longrightarrow> distinct (map fst (leave_all s m))"
proof (induction m)
  case Nil
  then show ?case by simp
next
  case (Cons p m)
  obtain r us where p: "p = (r, us)" by (cases p)
  from Cons.prems have m: "distinct (map fst m)" and r: "r \<notin> fst ` set m"
    by (simp_all add: p)
  have "r \<notin> fst ` set (leave_all s m)"
  proof
    assume "r \<in> fst ` set (leave_all s m)"
    then obtain us' where "(r, us') \<in> set (leave_all s m)" by force
    then have "r \<in> fst ` set m" by (rule keys_leave_all)
    with r show False by contradiction
  qed
  with Cons.IH [OF m] show ?case by (simp add: p)
qed

lemma well_formed_rooms_leave_all:
  "well_formed_rooms m \<Longrightarrow> well_formed_rooms (leave_all s m)"
  unfolding well_formed_rooms_def
  using distinct_keys_leave_all [of m s] distinct_in_leave_all [of m _ _ s]
  by (metis prod.collapse)

lemma fst_disconnect:
  "fst (disconnect ts s st) =
     st\<lparr>activeUsers := map_delete s (activeUsers st),
        chatRooms := map (\<lambda>p. (fst p, set_delete s (snd p))) (chatRooms st),
        videoRooms := map (\<lambda>p. (fst p, set_delete s (snd p))) (videoRooms st)\<rparr>"
  by (simp add: disconnect_def Let_def case_prod_beta fst_remove_from_all)

lemma snd_disconnect:
  "snd (disconnect ts s st) =
     Console (LogClientDisconnected s) #
     map (\<lambda>p. socket_to st s (fst p)
                (ChatUserLeft (opt_userId (map_get s (activeUsers st)))
                              (opt_username (map_get s (activeUsers st))) ts))
         (filter (\<lambda>p. s \<in> set (snd p)) (chatRooms st)) @
     map (\<lambda>p. socket_to st s (fst p)
                (VideoUserLeft s (opt_userId (map_get s (activeUsers st)))
                               (opt_username (map_get s (activeUsers st)))))
         (filter (\<lambda>p. s \<in> set (snd p)) (videoRooms st))"
  by (simp add: disconnect_def Let_def case_prod_beta snd_remove_from_all)

lemma well_formed_init: "well_formed init"
  by (simp add: well_formed_def well_formed_rooms_def init_def)

lemma well_formed_socket_join: "well_formed st \<Longrightarrow> well_formed (socket_join s r st)"
  by (simp add: well_formed_def socket_join_def well_formed_rooms_room_add)

lemma well_formed_socket_leave: "well_formed st \<Longrightarrow> well_formed (socket_leave s r st)"
  by (simp add: well_formed_def socket_leave_def well_formed_rooms_room_remove)

lemma well_formed_restore_rooms: "well_formed st \<Longrightarrow> well_formed (restore_rooms s rooms st)"
  unfolding restore_rooms_def
  by (induction rooms arbitrary: st) (simp_all add: well_formed_socket_join)

lemma restore_rooms_maps:
  "activeUsers (restore_rooms s rooms st) = activeUsers st"
  "chatRooms (restore_rooms s rooms st) = chatRooms st"
  "videoRooms (restore_rooms s rooms st) = videoRooms st"
  unfolding restore_rooms_def
  by (induction rooms arbitrary: st) (simp_all add: socket_join_def)

lemma on_connection_maps:
  "activeUsers (fst (on_connection s hs recovered st)) = activeUsers st"
  "chatRooms (fst (on_connection s hs recovered st)) = chatRooms st"
  "videoRooms (fst (on_connection s hs recovered st)) = videoRooms st"
  by (cases recovered; simp add: on_connection_def socket_join_def restore_rooms_maps)+

lemma well_formed_chatRooms:
  "well_formed st \<Longrightarrow> well_formed_rooms m \<Longrightarrow> well_formed (st\<lparr>chatRooms := m\<rparr>)"
  by (simp add: well_formed_def)

lemma well_formed_videoRooms:
  "well_formed st \<Longrightarrow> well_formed_rooms m \<Longrightarrow> well_formed (st\<lparr>videoRooms := m\<rparr>)"
  by (simp add: well_formed_def)

lemma well_formed_handle: "well_formed st \<Longrightarrow> well_formed (fst (handle now ts s i st))"
proof (cases i)
  case (Connection hs recovered)
  assume "well_formed st"
  then show ?thesis
    by (cases recovered)
       (simp_all add: Connection on_connection_def well_formed_socket_join
                      well_formed_restore_rooms)
next
  case (UserJoin d)
  assume "well_formed st"
  then show ?thesis
    by (simp add: UserJoin user_join_def well_formed_def map_set_def distinct_update)
next
  case (ChatJoinRoom r)
  assume w: "well_formed st"
  have "well_formed_rooms (room_add r s (chatRooms (socket_join s r st)))"
    using well_formed_socket_join [OF w] by (simp add: well_formed_def well_formed_rooms_room_add)
  then show ?thesis
    by (simp add: ChatJoinRoom chat_join_room_def Let_def well_formed_chatRooms
                  well_formed_socket_join w)
next
  case (ChatSendMessage d)
  assume "well_formed st"
  then show ?thesis by (simp add: ChatSendMessage chat_send_message_def Let_def)
next
  case (ChatLeaveRoom r)
  assume w: "well_formed st"
  have "well_formed_rooms (room_remove r s (chatRooms (socket_leave s r st)))"
    using well_formed_socket_leave [OF w]
    by (simp add: well_formed_def well_formed_rooms_room_remove)
  then show ?thesis
    by (simp add: ChatLeaveRoom chat_leave_room_def Let_def well_formed_chatRooms
                  well_formed_socket_leave w)
next
  case (VideoJoinRoom r)
  assume w: "well_formed st"
  have "well_formed_rooms (room_add r s (videoRooms (socket_join s r st)))"
    using well_formed_socket_join [OF w] by (simp add: well_formed_def well_formed_rooms_room_add)
  then show ?thesis
    by (simp add: VideoJoinRoom video_join_room_def Let_def well_formed_videoRooms
                  well_formed_socket_join w)
next
  case (VideoSendOffer x t)
  assume "well_formed st"
  then show ?thesis by (simp add: VideoSendOffer video_send_offer_def)
next
  case (VideoSendAnswer x t)
  assume "well_formed st"
  then show ?thesis by (simp add: VideoSendAnswer video_send_answer_def)
next
  case (VideoIce x t)
  assume "well_formed st"
  then show ?thesis by (simp add: VideoIce video_ice_candidate_def)
next
  case (VideoLeaveRoom r)
  assume w: "well_formed st"
  have "well_formed_rooms (room_remove r s (videoRooms (socket_leave s r st)))"
    using well_formed_socket_leave [OF w]
    by (simp add: well_formed_def well_formed_rooms_room_remove)
  then show ?thesis
    by (simp add: VideoLeaveRoom video_leave_room_def Let_def well_formed_videoRooms
                  well_formed_socket_leave w)
next
  case Disconnect
  assume "well_formed st"
  then show ?thesis
    by (simp add: Disconnect on_disconnect_def fst_disconnect well_formed_def
                  well_formed_rooms_clear well_formed_rooms_leave_all map_delete_def
                  distinct_delete)
next
  case (SocketError e)
  assume "well_formed st"
  then show ?thesis by (simp add: SocketError socket_error_def)
qed

text \<open>Every state the relay reaches from its start is well formed.\<close>

lemma well_formed_run: "well_formed st \<Longrightarrow> well_formed (run tr st)"
  by (induction tr arbitrary: st) (auto simp: well_formed_handle)

lemma well_formed_reachable: "well_formed (run tr init)"
  by (rule well_formed_run [OF well_formed_init])

subsection \<open>Who stays in a Socket.io room\<close>

lemma member_socket_join:
  "s \<in> set (room_members st r) \<Longrightarrow> s \<in> set (room_members (socket_join s' r' st) r)"
  by (auto simp: room_members_def socket_join_def map_get_room_add set_set_add
           split: option.splits)

lemma member_restore_rooms:
  "s \<in> set (room_members st r) \<Longrightarrow> s \<in> set (room_members (restore_rooms s' rooms st) r)"
  unfolding restore_rooms_def
  by (induction rooms arbitrary: st) (simp_all add: member_socket_join)

lemma member_on_connection:
  "s \<in> set (room_members st r) \<Longrightarrow>
   s \<in> set (room_members (fst (on_connection s' hs recovered st)) r)"
  by (cases recovered)
     (simp_all add: on_connection_def member_socket_join member_restore_rooms)


lemma restore_rooms_joins:
  "r \<in> set rooms \<Longrightarrow> s \<in> set (room_members (restore_rooms s rooms st) r)"
proof (induction rooms arbitrary: st)
  case Nil
  then show ?case by simp
next
  case (Cons x rooms)
  show ?case
  proof (cases "r = x")
    case True
    have "s \<in> set (room_members (socket_join s x st) x)"
      by (simp add: room_members_def socket_join_def map_get_room_add set_set_add)
    then have "s \<in> set (room_members (restore_rooms s rooms (socket_join s x st)) x)"
      by (rule member_restore_rooms)
    then show ?thesis by (simp add: True restore_rooms_def)
  next
    case False
    with Cons.prems have "r \<in> set rooms" by simp
    from Cons.IH [OF this, of "socket_join s x st"] show ?thesis
      by (simp add: restore_rooms_def)
  qed
qed

text \<open>
  A socket whose connection state is recovered is back in every room of its session
  before the \<open>connection\<close> handler runs, and the three maps are as the \<open>disconnect\<close>
  handler left them: the socket is in the Socket.io rooms and in none of the sets.
\<close>

lemma recovered_socket_back_in_rooms:
  "r \<in> set (se_rooms se) \<Longrightarrow>
   s \<in> set (room_members (fst (on_connection s hs (Some se) st)) r)"
  by (simp add: on_connection_def member_socket_join restore_rooms_joins)

lemma recovered_socket_not_listed:
  "room_members (fst a_recovered) ''w'' = [''b'', ''a''] \<and>
   chatRooms (fst a_recovered) = [(''w'', [''b''])] \<and>
   received_by ''a'' (snd a_recovered) =
     [ChatReceiveMessage
        \<lparr>m_id = (6, ''b''), m_roomId = ''w'', m_message = JStr ''hello'',
         m_userId = None, m_username = None, m_timestamp = ''t6''\<rparr>]"
  by code_simp

lemma member_socket_leave:
  assumes "s \<in> set (room_members st r)" "\<not> (r' = r \<and> s' = s)"
  shows "s \<in> set (room_members (socket_leave s' r' st) r)"
proof -
  from assms(1) obtain us where us: "map_get r (sio_rooms st) = Some us" "s \<in> set us"
    by (cases "map_get r (sio_rooms st)") (auto simp: room_members_def)
  show ?thesis
  proof (cases "r' = r")
    case True
    with assms(2) have "s' \<noteq> s" by simp
    then have in': "s \<in> set (set_delete s' us)" using us(2) by (simp add: set_set_delete)
    then have "set_delete s' us \<noteq> []" by auto
    with in' show ?thesis
      by (simp add: room_members_def socket_leave_def map_get_room_remove us(1) True)
  next
    case False
    then show ?thesis
      using us by (simp add: room_members_def socket_leave_def map_get_room_remove)
  qed
qed

lemma member_leave_all:
  "map_of m r = Some us \<Longrightarrow> s \<in> set us \<Longrightarrow> s' \<noteq> s \<Longrightarrow>
   \<exists>us'. map_of (leave_all s' m) r = Some us' \<and> s \<in> set us'"
proof (induction m)
  case Nil
  then show ?case by simp
next
  case (Cons p m)
  obtain r0 us0 where p: "p = (r0, us0)" by (cases p)
  show ?case
  proof (cases "r0 = r")
    case True
    with Cons.prems p have "us0 = us" by simp
    with Cons.prems have "s \<in> set (set_delete s' us0)" by (simp add: set_set_delete)
    moreover then have "set_delete s' us0 \<noteq> []" by auto
    ultimately show ?thesis by (simp add: p True)
  next
    case False
    with Cons.prems p have "map_of m r = Some us" by simp
    from Cons.IH [OF this Cons.prems(2,3)] show ?thesis using False by (auto simp: p)
  qed
qed

lemma member_on_disconnect:
  assumes "s \<in> set (room_members st r)" "s' \<noteq> s"
  shows "s \<in> set (room_members (fst (on_disconnect ts s' st)) r)"
proof -
  from assms(1) obtain us where us: "map_of (sio_rooms st) r = Some us" "s \<in> set us"
    by (cases "map_of (sio_rooms st) r") (auto simp: room_members_def map_get_def)
  from member_leave_all [OF us assms(2)] show ?thesis
    by (auto simp: on_disconnect_def fst_disconnect room_members_def map_get_def)
qed

lemma handle_keeps_joined:
  assumes "s \<in> set (room_members st r)" "keeps_joined s r (now, ts, s', i)"
  shows "s \<in> set (room_members (fst (handle now ts s' i st)) r)"
proof (cases i)
  case (Connection hs recovered)
  then show ?thesis using assms(1) by (simp add: member_on_connection)
next
  case (UserJoin d)
  then show ?thesis using assms(1) by (simp add: user_join_def room_members_simps)
next
  case (ChatJoinRoom r')
  then show ?thesis using assms(1)
    by (simp add: chat_join_room_def Let_def room_members_simps member_socket_join)
next
  case (ChatSendMessage d)
  then show ?thesis using assms(1) by (simp add: chat_send_message_def Let_def)
next
  case (ChatLeaveRoom r')
  with assms(2) have "\<not> (r' = r \<and> s' = s)" by auto
  then show ?thesis using assms(1) ChatLeaveRoom
    by (simp add: chat_leave_room_def Let_def room_members_simps member_socket_leave)
next
  case (VideoJoinRoom r')
  then show ?thesis using assms(1)
    by (simp add: video_join_room_def Let_def room_members_simps member_socket_join)
next
  case (VideoSendOffer x t)
  then show ?thesis using assms(1) by (simp add: video_send_offer_def)
next
  case (VideoSendAnswer x t)
  then show ?thesis using assms(1) by (simp add: video_send_answer_def)
next
  case (VideoIce x t)
  then show ?thesis using assms(1) by (simp add: video_ice_candidate_def)
next
  case (VideoLeaveRoom r')
  with assms(2) have "\<not> (r' = r \<and> s' = s)" by auto
  then show ?thesis using assms(1) VideoLeaveRoom
    by (simp add: video_leave_room_def Let_def room_members_simps member_socket_leave)
next
  case Disconnect
  with assms(2) have "s' \<noteq> s" by auto
  then show ?thesis using assms(1) Disconnect by (simp add: member_on_disconnect)
next
  case (SocketError e)
  then show ?thesis using assms(1) by (simp add: socket_error_def)
qed

lemma run_keeps_joined:
  "s \<in> set (room_members st r) \<Longrightarrow> \<forall>e \<in> set tr. keeps_joined s r e \<Longrightarrow>
   s \<in> set (room_members (run tr st) r)"
proof (induction tr arbitrary: st)
  case Nil
  then show ?case by simp
next
  case (Cons e tr)
  obtain now ts s' i where e: "e = (now, ts, s', i)" by (cases e)
  from Cons.prems have "keeps_joined s r (now, ts, s', i)" by (simp add: e)
  from handle_keeps_joined [OF Cons.prems(1) this]
  have "s \<in> set (room_members (fst (handle now ts s' i st)) r)" .
  from Cons.IH [OF this] Cons.prems(2) show ?case by (simp add: e)
qed

lemma chat_join_room_joins: "s \<in> set (room_members (fst (chat_join_room ts s r st)) r)"
  by (simp add: chat_join_room_def Let_def room_members_def socket_join_def map_get_room_add
                set_set_add)

lemma video_join_room_joins: "s \<in> set (room_members (fst (video_join_room s r st)) r)"
  by (simp add: video_join_room_def Let_def room_members_def socket_join_def map_get_room_add
                set_set_add)

subsection \<open>When the sets and the rooms agree\<close>

lemma fst_chat_join_room:
  "fst (chat_join_room ts s r st) =
     st\<lparr>sio_rooms := room_add r s (sio_rooms st), chatRooms := room_add r s (chatRooms st)\<rparr>"
  by (simp add: chat_join_room_def Let_def socket_join_def)

lemma snd_chat_join_room:
  "snd (chat_join_room ts s r st) =
     [Console (LogChatJoined (js_or_str (opt_username (map_get s (activeUsers st))) s) r),
      socket_to (fst (chat_join_room ts s r st)) s r
        (ChatUserJoined (opt_userId (map_get s (activeUsers st)))
                        (opt_username (map_get s (activeUsers st))) ts),
      io_to (fst (chat_join_room ts s r st)) s
        (ChatRoomJoined r (room_count r (chatRooms (fst (chat_join_room ts s r st)))))]"
  by (simp add: chat_join_room_def Let_def socket_join_def)

lemma listed_absent: "r \<notin> set (map fst m) \<Longrightarrow> listed m r = []"
proof -
  assume "r \<notin> set (map fst m)"
  then have "map_of m r = None" by (simp add: map_of_eq_None_iff)
  then show ?thesis by (simp add: listed_def map_get_def)
qed

lemma listed_in_rooms_iff:
  "listed_in_rooms st \<longleftrightarrow>
     (\<forall>r. set (listed (chatRooms st) r) \<subseteq> set (room_members st r) \<and>
          set (listed (videoRooms st) r) \<subseteq> set (room_members st r))"
proof
  assume l: "listed_in_rooms st"
  show "\<forall>r. set (listed (chatRooms st) r) \<subseteq> set (room_members st r) \<and>
            set (listed (videoRooms st) r) \<subseteq> set (room_members st r)"
  proof (intro allI conjI)
    fix r
    show "set (listed (chatRooms st) r) \<subseteq> set (room_members st r)"
    proof (cases "r \<in> set (map fst (chatRooms st))")
      case True
      with l show ?thesis by (auto simp: listed_in_rooms_def list_all_iff set_has_def)
    next
      case False
      then show ?thesis by (simp add: listed_absent)
    qed
    show "set (listed (videoRooms st) r) \<subseteq> set (room_members st r)"
    proof (cases "r \<in> set (map fst (videoRooms st))")
      case True
      with l show ?thesis by (auto simp: listed_in_rooms_def list_all_iff set_has_def)
    next
      case False
      then show ?thesis by (simp add: listed_absent)
    qed
  qed
next
  assume "\<forall>r. set (listed (chatRooms st) r) \<subseteq> set (room_members st r) \<and>
              set (listed (videoRooms st) r) \<subseteq> set (room_members st r)"
  then show "listed_in_rooms st"
    by (auto simp: listed_in_rooms_def list_all_iff set_has_def)
qed

lemma listed_room_add:
  "listed (room_add r s m) r' = (if r' = r then set_add s (listed m r) else listed m r')"
  by (simp add: listed_def map_get_room_add)

lemma set_listed_room_remove:
  "set (listed (room_remove r s m) r') =
     (if r' = r then set (listed m r) - {s} else set (listed m r'))"
proof (cases "map_get r m")
  case None
  then show ?thesis by (simp add: listed_def map_get_room_remove)
next
  case (Some us)
  have "set_delete s us = [] \<Longrightarrow> set us - {s} = {}"
    using set_set_delete [of s us] by simp
  then show ?thesis
    by (auto simp: listed_def map_get_room_remove Some set_set_delete)
qed

lemma listed_clear:
  "listed (map (\<lambda>p. (fst p, set_delete s (snd p))) m) r = set_delete s (listed m r)"
  by (cases "map_get r m") (simp_all add: listed_def map_get_map_snd set_delete_def)

lemma members_socket_join:
  "set (room_members st r) \<subseteq> set (room_members (socket_join s r' st) r)"
  using member_socket_join by blast

lemma members_socket_leave:
  "set (room_members st r) - (if r' = r then {s} else {})
     \<subseteq> set (room_members (socket_leave s r' st) r)"
  using member_socket_leave [of _ st r r' s] by (auto split: if_splits)

lemma members_on_disconnect:
  "set (room_members st r) - {s} \<subseteq> set (room_members (fst (on_disconnect ts s st)) r)"
  using member_on_disconnect [of _ st r s ts] by auto

lemma joined_socket_join: "s \<in> set (room_members (socket_join s r st) r)"
  by (simp add: room_members_def socket_join_def map_get_room_add set_set_add)

lemma listed_in_roomsI:
  assumes "\<And>r t. t \<in> set (listed (chatRooms st) r) \<Longrightarrow> t \<in> set (room_members st r)"
    and "\<And>r t. t \<in> set (listed (videoRooms st) r) \<Longrightarrow> t \<in> set (room_members st r)"
  shows "listed_in_rooms st"
  using assms unfolding listed_in_rooms_iff by blast

lemma listed_in_rooms_chat: "listed_in_rooms st \<Longrightarrow> t \<in> set (listed (chatRooms st) r) \<Longrightarrow> t \<in> set (room_members st r)"
  unfolding listed_in_rooms_iff by blast

lemma listed_in_rooms_video: "listed_in_rooms st \<Longrightarrow> t \<in> set (listed (videoRooms st) r) \<Longrightarrow> t \<in> set (room_members st r)"
  unfolding listed_in_rooms_iff by blast

lemma in_listed_room_add:
  "t \<in> set (listed (room_add r s m) r') \<Longrightarrow> (r' = r \<and> t = s) \<or> t \<in> set (listed m r')"
  by (auto simp: listed_room_add set_set_add split: if_splits)

lemma in_listed_room_remove:
  "t \<in> set (listed (room_remove r s m) r') \<Longrightarrow> t \<in> set (listed m r') \<and> \<not> (r' = r \<and> t = s)"
  by (auto simp: set_listed_room_remove split: if_splits)

lemma room_members_sio:
  "room_members (st\<lparr>sio_rooms := x, chatRooms := c\<rparr>) r = room_members (st\<lparr>sio_rooms := x\<rparr>) r"
  "room_members (st\<lparr>sio_rooms := x, videoRooms := v\<rparr>) r = room_members (st\<lparr>sio_rooms := x\<rparr>) r"
  by (simp_all add: room_members_def)

lemma listed_in_rooms_join:
  assumes a: "listed_in_rooms st"
  shows "listed_in_rooms (st\<lparr>sio_rooms := room_add r s (sio_rooms st),
                    chatRooms := room_add r s (chatRooms st)\<rparr>)" (is "listed_in_rooms ?c")
    and "listed_in_rooms (st\<lparr>sio_rooms := room_add r s (sio_rooms st),
                    videoRooms := room_add r s (videoRooms st)\<rparr>)" (is "listed_in_rooms ?v")
proof -
  have mc: "room_members ?c r' = room_members (socket_join s r st) r'" for r'
    by (simp add: room_members_sio socket_join_def)
  have mv: "room_members ?v r' = room_members (socket_join s r st) r'" for r'
    by (simp add: room_members_sio socket_join_def)
  have old_c: "t \<in> set (listed (chatRooms st) r') \<Longrightarrow> t \<in> set (room_members (socket_join s r st) r')"
    for t r'
    by (rule member_socket_join) (rule listed_in_rooms_chat [OF a])
  have old_v: "t \<in> set (listed (videoRooms st) r') \<Longrightarrow> t \<in> set (room_members (socket_join s r st) r')"
    for t r'
    by (rule member_socket_join) (rule listed_in_rooms_video [OF a])
  show "listed_in_rooms ?c"
  proof (rule listed_in_roomsI)
    fix r' t
    assume "t \<in> set (listed (chatRooms ?c) r')"
    then have "t \<in> set (listed (room_add r s (chatRooms st)) r')" by simp
    then have "(r' = r \<and> t = s) \<or> t \<in> set (listed (chatRooms st) r')"
      by (rule in_listed_room_add)
    then show "t \<in> set (room_members ?c r')"
      unfolding mc using joined_socket_join [of s r st] old_c by blast
  next
    fix r' t
    assume "t \<in> set (listed (videoRooms ?c) r')"
    then have "t \<in> set (listed (videoRooms st) r')" by simp
    then show "t \<in> set (room_members ?c r')" unfolding mc by (rule old_v)
  qed
  show "listed_in_rooms ?v"
  proof (rule listed_in_roomsI)
    fix r' t
    assume "t \<in> set (listed (videoRooms ?v) r')"
    then have "t \<in> set (listed (room_add r s (videoRooms st)) r')" by simp
    then have "(r' = r \<and> t = s) \<or> t \<in> set (listed (videoRooms st) r')"
      by (rule in_listed_room_add)
    then show "t \<in> set (room_members ?v r')"
      unfolding mv using joined_socket_join [of s r st] old_v by blast
  next
    fix r' t
    assume "t \<in> set (listed (chatRooms ?v) r')"
    then have "t \<in> set (listed (chatRooms st) r')" by simp
    then show "t \<in> set (room_members ?v r')" unfolding mv by (rule old_c)
  qed
qed

lemma listed_in_rooms_leave:
  assumes a: "listed_in_rooms st"
  shows "s \<notin> set (listed (videoRooms st) r) \<Longrightarrow>
         listed_in_rooms (st\<lparr>sio_rooms := room_remove r s (sio_rooms st),
                    chatRooms := room_remove r s (chatRooms st)\<rparr>)" (is "_ \<Longrightarrow> listed_in_rooms ?c")
    and "s \<notin> set (listed (chatRooms st) r) \<Longrightarrow>
         listed_in_rooms (st\<lparr>sio_rooms := room_remove r s (sio_rooms st),
                    videoRooms := room_remove r s (videoRooms st)\<rparr>)" (is "_ \<Longrightarrow> listed_in_rooms ?v")
proof -
  have mc: "room_members ?c r' = room_members (socket_leave s r st) r'" for r'
    by (simp add: room_members_sio socket_leave_def)
  have mv: "room_members ?v r' = room_members (socket_leave s r st) r'" for r'
    by (simp add: room_members_sio socket_leave_def)
  have keep: "t \<in> set (room_members st r') \<Longrightarrow> \<not> (r' = r \<and> t = s) \<Longrightarrow>
              t \<in> set (room_members (socket_leave s r st) r')" for t r'
    by (rule member_socket_leave) auto
  {
    assume nv: "s \<notin> set (listed (videoRooms st) r)"
    show "listed_in_rooms ?c"
    proof (rule listed_in_roomsI)
      fix r' t
      assume "t \<in> set (listed (chatRooms ?c) r')"
      then have "t \<in> set (listed (room_remove r s (chatRooms st)) r')" by simp
      then have "t \<in> set (listed (chatRooms st) r') \<and> \<not> (r' = r \<and> t = s)"
        by (rule in_listed_room_remove)
      then show "t \<in> set (room_members ?c r')"
        unfolding mc using listed_in_rooms_chat [OF a] keep by blast
    next
      fix r' t
      assume "t \<in> set (listed (videoRooms ?c) r')"
      then have l: "t \<in> set (listed (videoRooms st) r')" by simp
      with nv have "\<not> (r' = r \<and> t = s)" by blast
      with l show "t \<in> set (room_members ?c r')"
        unfolding mc using listed_in_rooms_video [OF a] keep by blast
    qed
  }
  {
    assume nc: "s \<notin> set (listed (chatRooms st) r)"
    show "listed_in_rooms ?v"
    proof (rule listed_in_roomsI)
      fix r' t
      assume "t \<in> set (listed (videoRooms ?v) r')"
      then have "t \<in> set (listed (room_remove r s (videoRooms st)) r')" by simp
      then have "t \<in> set (listed (videoRooms st) r') \<and> \<not> (r' = r \<and> t = s)"
        by (rule in_listed_room_remove)
      then show "t \<in> set (room_members ?v r')"
        unfolding mv using listed_in_rooms_video [OF a] keep by blast
    next
      fix r' t
      assume "t \<in> set (listed (chatRooms ?v) r')"
      then have l: "t \<in> set (listed (chatRooms st) r')" by simp
      with nc have "\<not> (r' = r \<and> t = s)" by blast
      with l show "t \<in> set (room_members ?v r')"
        unfolding mv using listed_in_rooms_chat [OF a] keep by blast
    qed
  }
qed

lemma listed_in_rooms_on_disconnect:
  assumes a: "listed_in_rooms st"
  shows "listed_in_rooms (fst (on_disconnect ts s st))" (is "listed_in_rooms ?d")
proof (rule listed_in_roomsI)
  have keep: "t \<in> set (room_members st r) \<Longrightarrow> t \<noteq> s \<Longrightarrow> t \<in> set (room_members ?d r)" for t r
    by (rule member_on_disconnect) auto
  have c: "listed (chatRooms ?d) r = set_delete s (listed (chatRooms st) r)" for r
    by (simp add: on_disconnect_def fst_disconnect listed_clear)
  have v: "listed (videoRooms ?d) r = set_delete s (listed (videoRooms st) r)" for r
    by (simp add: on_disconnect_def fst_disconnect listed_clear)
  {
    fix r t
    assume "t \<in> set (listed (chatRooms ?d) r)"
    then have "t \<in> set (listed (chatRooms st) r) \<and> t \<noteq> s" by (simp add: c set_set_delete)
    then show "t \<in> set (room_members ?d r)" using listed_in_rooms_chat [OF a] keep by blast
  }
  {
    fix r t
    assume "t \<in> set (listed (videoRooms ?d) r)"
    then have "t \<in> set (listed (videoRooms st) r) \<and> t \<noteq> s" by (simp add: v set_set_delete)
    then show "t \<in> set (room_members ?d r)" using listed_in_rooms_video [OF a] keep by blast
  }
qed

lemma listed_in_rooms_on_connection:
  "listed_in_rooms st \<Longrightarrow> listed_in_rooms (fst (on_connection s hs recovered st))"
proof (rule listed_in_roomsI)
  fix r t
  assume a: "listed_in_rooms st"
  {
    assume "t \<in> set (listed (chatRooms (fst (on_connection s hs recovered st))) r)"
    then have "t \<in> set (listed (chatRooms st) r)" by (simp add: on_connection_maps)
    then have "t \<in> set (room_members st r)" by (rule listed_in_rooms_chat [OF a])
    then show "t \<in> set (room_members (fst (on_connection s hs recovered st)) r)"
      by (rule member_on_connection)
  }
  {
    assume "t \<in> set (listed (videoRooms (fst (on_connection s hs recovered st))) r)"
    then have "t \<in> set (listed (videoRooms st) r)" by (simp add: on_connection_maps)
    then have "t \<in> set (room_members st r)" by (rule listed_in_rooms_video [OF a])
    then show "t \<in> set (room_members (fst (on_connection s hs recovered st)) r)"
      by (rule member_on_connection)
  }
qed

lemma listed_in_rooms_handle:
  assumes a: "listed_in_rooms st" and k: "same_kind_leave st s i"
  shows "listed_in_rooms (fst (handle now ts s i st))"
proof (cases i)
  case (Connection hs recovered)
  then show ?thesis using a by (simp add: listed_in_rooms_on_connection)
next
  case (UserJoin d)
  then show ?thesis using a by (simp add: user_join_def listed_in_rooms_iff room_members_simps)
next
  case (ChatJoinRoom r)
  then show ?thesis using listed_in_rooms_join(1) [OF a] by (simp add: fst_chat_join_room)
next
  case (ChatSendMessage d)
  then show ?thesis using a by (simp add: chat_send_message_def Let_def)
next
  case (ChatLeaveRoom r)
  with k have "s \<notin> set (listed (videoRooms st) r)" by (simp add: set_has_def)
  from listed_in_rooms_leave(1) [OF a this] show ?thesis
    by (simp add: ChatLeaveRoom chat_leave_room_def Let_def socket_leave_def)
next
  case (VideoJoinRoom r)
  then show ?thesis using listed_in_rooms_join(2) [OF a]
    by (simp add: video_join_room_def Let_def socket_join_def)
next
  case (VideoSendOffer x t)
  then show ?thesis using a by (simp add: video_send_offer_def)
next
  case (VideoSendAnswer x t)
  then show ?thesis using a by (simp add: video_send_answer_def)
next
  case (VideoIce x t)
  then show ?thesis using a by (simp add: video_ice_candidate_def)
next
  case (VideoLeaveRoom r)
  with k have "s \<notin> set (listed (chatRooms st) r)" by (simp add: set_has_def)
  from listed_in_rooms_leave(2) [OF a this] show ?thesis
    by (simp add: VideoLeaveRoom video_leave_room_def Let_def socket_leave_def)
next
  case Disconnect
  then show ?thesis using a by (simp add: listed_in_rooms_on_disconnect)
next
  case (SocketError e)
  then show ?thesis using a by (simp add: socket_error_def)
qed

lemma listed_in_rooms_run: "listed_in_rooms st \<Longrightarrow> clean_run tr st \<Longrightarrow> listed_in_rooms (run tr st)"
proof (induction tr arbitrary: st)
  case Nil
  then show ?case by simp
next
  case (Cons e tr)
  obtain now ts s i where e: "e = (now, ts, s, i)" by (cases e)
  from Cons.prems have k: "same_kind_leave st s i"
    and c: "clean_run tr (fst (handle now ts s i st))" by (simp_all add: e)
  from Cons.IH [OF listed_in_rooms_handle [OF Cons.prems(1) k] c] show ?case by (simp add: e)
qed

lemma listed_in_rooms_init: "listed_in_rooms init"
  by (simp add: listed_in_rooms_def init_def)


text \<open>
  From the start, and as long as every leave is of the same kind as the listing, every
  socket the relay lists for a room is in the Socket.io room.
\<close>

lemma listed_in_rooms_reachable: "clean_run tr init \<Longrightarrow> listed_in_rooms (run tr init)"
  by (rule listed_in_rooms_run [OF listed_in_rooms_init])

subsection \<open>Chat messages\<close>

lemma chat_send_message_delivery:
  "t \<in> set (room_members st (d_roomId data)) \<Longrightarrow>
   \<exists>md. received_by t (snd (chat_send_message now ts s data st)) = [ChatReceiveMessage md]
       \<and> m_message md = d_message data \<and> m_roomId md = d_roomId data"
  by (simp add: chat_send_message_def Let_def io_to_def)

lemma chat_send_message_outside:
  "t \<notin> set (room_members st (d_roomId data)) \<Longrightarrow>
   received_by t (snd (chat_send_message now ts s data st)) = []"
  by (simp add: chat_send_message_def Let_def io_to_def)

text \<open>
  What \<open>chat:send-message\<close> does, from any state: the message goes, once and as sent, to
  the sockets in the Socket.io room named by the message, the sender among them when it
  is in that room, and to no other socket. A socket that has sent \<open>chat:join-room\<close> for
  the room stays in that Socket.io room until it sends a \<open>chat:leave-room\<close> or a
  \<open>video:leave-room\<close> for it or disconnects. In a run from the start in which every leave
  is of the same kind as the listing, every socket listed in the room's set of
  \<open>chatRooms\<close> is in that Socket.io room, and receives the message.
\<close>

lemma chat_send_message_reaches_joined:
  "(\<forall>t. received_by t (snd (chat_send_message now ts s data st)) =
      (if t \<in> set (room_members st (d_roomId data))
       then [ChatReceiveMessage
               \<lparr>m_id = (now, s), m_roomId = d_roomId data, m_message = d_message data,
                m_userId = js_or (d_userId data) (opt_userId (map_get s (activeUsers st))),
                m_username = js_or (d_username data) (opt_username (map_get s (activeUsers st))),
                m_timestamp = ts\<rparr>]
       else [])) \<and>
   ((\<forall>e \<in> set tr. keeps_joined t' (d_roomId data) e) \<longrightarrow>
      (\<exists>md. received_by t'
               (snd (chat_send_message now ts s data
                      (run tr (fst (chat_join_room ts0 t' (d_roomId data) st0)))))
             = [ChatReceiveMessage md]
          \<and> m_message md = d_message data \<and> m_roomId md = d_roomId data)) \<and>
   (clean_run tr0 init \<longrightarrow>
      (\<forall>t \<in> set (listed (chatRooms (run tr0 init)) (d_roomId data)).
         \<exists>md. received_by t (snd (chat_send_message now ts s data (run tr0 init)))
                 = [ChatReceiveMessage md]
             \<and> m_message md = d_message data \<and> m_roomId md = d_roomId data))"
proof (intro conjI ballI impI allI)
  fix t
  show "received_by t (snd (chat_send_message now ts s data st)) =
      (if t \<in> set (room_members st (d_roomId data))
       then [ChatReceiveMessage
               \<lparr>m_id = (now, s), m_roomId = d_roomId data, m_message = d_message data,
                m_userId = js_or (d_userId data) (opt_userId (map_get s (activeUsers st))),
                m_username = js_or (d_username data) (opt_username (map_get s (activeUsers st))),
                m_timestamp = ts\<rparr>]
       else [])"
    by (simp add: chat_send_message_def Let_def io_to_def)
next
  assume "\<forall>e \<in> set tr. keeps_joined t' (d_roomId data) e"
  with chat_join_room_joins [of t' ts0 "d_roomId data" st0]
  have "t' \<in> set (room_members (run tr (fst (chat_join_room ts0 t' (d_roomId data) st0)))
                    (d_roomId data))"
    by (rule run_keeps_joined)
  then show "\<exists>md. received_by t'
               (snd (chat_send_message now ts s data
                      (run tr (fst (chat_join_room ts0 t' (d_roomId data) st0)))))
             = [ChatReceiveMessage md]
          \<and> m_message md = d_message data \<and> m_roomId md = d_roomId data"
    by (rule chat_send_message_delivery)
next
  fix t
  assume "clean_run tr0 init"
  then have "listed_in_rooms (run tr0 init)" by (rule listed_in_rooms_reachable)
  moreover assume "t \<in> set (listed (chatRooms (run tr0 init)) (d_roomId data))"
  ultimately have "t \<in> set (room_members (run tr0 init) (d_roomId data))"
    by (rule listed_in_rooms_chat)
  then show "\<exists>md. received_by t (snd (chat_send_message now ts s data (run tr0 init)))
                 = [ChatReceiveMessage md]
             \<and> m_message md = d_message data \<and> m_roomId md = d_roomId data"
    by (rule chat_send_message_delivery)
qed

text \<open>
  Claim C1. Broadcast reaches all room members: for every \<open>chat:send-message\<close> naming a
  room, every socket currently joined to that room, the sender included if joined, receives
  one \<open>chat:receive-message\<close> carrying the same message content and room id. The server
  does not do this. In the run \<open>a_left_call\<close> sockets \<open>a\<close> and \<open>b\<close> have sent
  \<open>chat:join-room\<close> for room \<open>w\<close> and neither has left it: \<open>chatRooms\<close> lists both. Socket
  \<open>a\<close> has also joined and left a call held under the same id, as the client does with a
  workspace id, and \<open>video:leave-room\<close> has called \<open>socket.leave\<close> for the name the chat
  broadcasts use. The message \<open>b\<close> then sends to \<open>w\<close> is handed to \<open>b\<close> alone; \<open>a\<close> is sent
  nothing.
\<close>

theorem listed_member_misses_message:
  "map_get ''w'' (chatRooms a_left_call) = Some [''a'', ''b''] \<and>
   snd (chat_send_message 7 ''t7'' ''b'' hello a_left_call) =
     [Console (LogMessage ''w'' None (JStr ''hello'')),
      Emit (IoTo ''w'')
        (ChatReceiveMessage
           \<lparr>m_id = (7, ''b''), m_roomId = ''w'', m_message = JStr ''hello'', m_userId = None,
            m_username = None, m_timestamp = ''t7''\<rparr>)
        [''b'']] \<and>
   received_by ''a'' (snd (chat_send_message 7 ''t7'' ''b'' hello a_left_call)) = []"
  by code_simp

subsection \<open>Disconnection\<close>

lemma disconnect_clears_rooms:
  "(r, us) \<in> set (map (\<lambda>p. (fst p, set_delete s (snd p))) m) \<Longrightarrow> s \<notin> set us"
  by (auto simp: set_set_delete)

lemma disconnect_clears_user: "\<not> map_has s (map_delete s m)"
  by (simp add: map_has_def map_delete_def delete_conv')

lemma disconnect_chat_left:
  assumes "(r, us) \<in> set (chatRooms st)" "s \<in> set us" "t \<in> set (room_members st r)"
    "t \<notin> set (room_members st s)"
  shows "ChatUserLeft (opt_userId (map_get s (activeUsers st)))
                      (opt_username (map_get s (activeUsers st))) ts
           \<in> set (received_by t (snd (disconnect ts s st)))"
proof -
  have "\<exists>p \<in> set (filter (\<lambda>p. s \<in> set (snd p)) (chatRooms st)).
          t \<notin> set (room_members st s) \<and> t \<in> set (room_members st (fst p))"
    using assms by force
  then show ?thesis
    by (simp only: snd_disconnect received_by.simps received_by_append set_append
                   received_by_socket_to Un_iff simp_thms)
qed

lemma disconnect_video_left:
  assumes "(r, us) \<in> set (videoRooms st)" "s \<in> set us" "t \<in> set (room_members st r)"
    "t \<notin> set (room_members st s)"
  shows "VideoUserLeft s (opt_userId (map_get s (activeUsers st)))
                       (opt_username (map_get s (activeUsers st)))
           \<in> set (received_by t (snd (disconnect ts s st)))"
proof -
  have "\<exists>p \<in> set (filter (\<lambda>p. s \<in> set (snd p)) (videoRooms st)).
          t \<notin> set (room_members st s) \<and> t \<in> set (room_members st (fst p))"
    using assms by force
  then show ?thesis
    by (simp only: snd_disconnect received_by.simps received_by_append set_append
                   received_by_socket_to Un_iff simp_thms)
qed

text \<open>
  What the \<open>disconnect\<close> handler does, from any state: afterwards the socket is in no set
  of \<open>chatRooms\<close>, in no set of \<open>videoRooms\<close> and has no entry in \<open>activeUsers\<close>; and for
  each chat room and each video room whose set contained it, every socket in the
  Socket.io room of that name that is not in the room named by the id of the closing
  socket is sent \<open>chat:user-left\<close>, respectively \<open>video:user-left\<close>, carrying the user the
  socket had registered.
\<close>

lemma disconnect_removes_membership:
  "(\<forall>(r, us) \<in> set (chatRooms (fst (disconnect ts s st))). s \<notin> set us) \<and>
   (\<forall>(r, us) \<in> set (videoRooms (fst (disconnect ts s st))). s \<notin> set us) \<and>
   \<not> map_has s (activeUsers (fst (disconnect ts s st))) \<and>
   (\<forall>(r, us) \<in> set (chatRooms st). s \<in> set us \<longrightarrow>
      (\<forall>t \<in> set (room_members st r). t \<notin> set (room_members st s) \<longrightarrow>
         ChatUserLeft (opt_userId (map_get s (activeUsers st)))
                      (opt_username (map_get s (activeUsers st))) ts
           \<in> set (received_by t (snd (disconnect ts s st))))) \<and>
   (\<forall>(r, us) \<in> set (videoRooms st). s \<in> set us \<longrightarrow>
      (\<forall>t \<in> set (room_members st r). t \<notin> set (room_members st s) \<longrightarrow>
         VideoUserLeft s (opt_userId (map_get s (activeUsers st)))
                         (opt_username (map_get s (activeUsers st)))
           \<in> set (received_by t (snd (disconnect ts s st)))))"
proof (intro conjI)
  show "\<forall>(r, us) \<in> set (chatRooms (fst (disconnect ts s st))). s \<notin> set us"
    using disconnect_clears_rooms [of _ _ s "chatRooms st"] by (auto simp: fst_disconnect)
  show "\<forall>(r, us) \<in> set (videoRooms (fst (disconnect ts s st))). s \<notin> set us"
    using disconnect_clears_rooms [of _ _ s "videoRooms st"] by (auto simp: fst_disconnect)
  show "\<not> map_has s (activeUsers (fst (disconnect ts s st)))"
    by (simp add: fst_disconnect disconnect_clears_user)
  show "\<forall>(r, us) \<in> set (chatRooms st). s \<in> set us \<longrightarrow>
      (\<forall>t \<in> set (room_members st r). t \<notin> set (room_members st s) \<longrightarrow>
         ChatUserLeft (opt_userId (map_get s (activeUsers st)))
                      (opt_username (map_get s (activeUsers st))) ts
           \<in> set (received_by t (snd (disconnect ts s st))))"
    using disconnect_chat_left by blast
  show "\<forall>(r, us) \<in> set (videoRooms st). s \<in> set us \<longrightarrow>
      (\<forall>t \<in> set (room_members st r). t \<notin> set (room_members st s) \<longrightarrow>
         VideoUserLeft s (opt_userId (map_get s (activeUsers st)))
                         (opt_username (map_get s (activeUsers st)))
           \<in> set (received_by t (snd (disconnect ts s st))))"
    using disconnect_video_left by blast
qed

text \<open>
  Two sockets in a chat room and in a call: when \<open>b\<close> closes, \<open>a\<close> is sent both
  departures.
\<close>

lemma disconnect_in_call:
  "chatRooms b_closing = [(''w'', [''a'', ''b''])] \<and>
   videoRooms b_closing = [(''call'', [''a'', ''b''])] \<and>
   chatRooms (fst (disconnect ''t8'' ''b'' b_closing)) = [(''w'', [''a''])] \<and>
   videoRooms (fst (disconnect ''t8'' ''b'' b_closing)) = [(''call'', [''a''])] \<and>
   \<not> map_has ''b'' (activeUsers (fst (disconnect ''t8'' ''b'' b_closing))) \<and>
   received_by ''a'' (snd (disconnect ''t8'' ''b'' b_closing)) =
     [ChatUserLeft (Some ''u2'') (Some ''bob'') ''t8'',
      VideoUserLeft ''b'' (Some ''u2'') (Some ''bob'')]"
  by code_simp

text \<open>The rooms as the transport leaves them when a socket closes.\<close>

lemma map_of_leave_all:
  "distinct (map fst m) \<Longrightarrow>
   map_of (leave_all s m) r =
     (case map_of m r of
        None \<Rightarrow> None
      | Some us \<Rightarrow> if set_delete s us = [] then None else Some (set_delete s us))"
proof (induction m)
  case Nil
  then show ?case by simp
next
  case (Cons p m)
  obtain r0 us0 where p: "p = (r0, us0)" by (cases p)
  from Cons.prems have d: "distinct (map fst m)" and n: "r0 \<notin> fst ` set m"
    by (simp_all add: p)
  show ?case
  proof (cases "r0 = r")
    case True
    have "r \<notin> fst ` set (leave_all s m)"
    proof
      assume "r \<in> fst ` set (leave_all s m)"
      then obtain us' where "(r, us') \<in> set (leave_all s m)" by force
      then have "r \<in> fst ` set m" by (rule keys_leave_all)
      with n True show False by simp
    qed
    then have "map_of (leave_all s m) r = None" by (simp add: map_of_eq_None_iff)
    then show ?thesis by (simp add: p True)
  next
    case False
    then show ?thesis using Cons.IH [OF d] by (simp add: p)
  qed
qed

lemma members_after_leave_all:
  assumes "well_formed st"
  shows "set (room_members (st\<lparr>sio_rooms := leave_all s (sio_rooms st)\<rparr>) r)
           = set (room_members st r) - {s}"
proof -
  from assms have d: "distinct (map fst (sio_rooms st))"
    by (simp add: well_formed_def well_formed_rooms_def)
  have e: "set_delete s us = [] \<Longrightarrow> set us - {s} = {}" for us
    using set_set_delete [of s us] by simp
  show ?thesis
    by (cases "map_of (sio_rooms st) r")
       (auto simp: room_members_def map_get_def map_of_leave_all [OF d] set_set_delete
             dest: e)
qed

text \<open>
  The whole event, the transport's part included: in a state where the sets and the rooms
  agree, every remaining member of a chat room's set that contained the socket is sent
  the departure, unless it has joined a room named by the id of the socket that closed.
\<close>

lemma on_disconnect_reaches_listed:
  assumes w: "well_formed st" and l: "listed_in_rooms st"
    and s: "s \<in> set (listed (chatRooms st) r)"
    and t: "t \<in> set (listed (chatRooms st) r)" "t \<noteq> s" "t \<notin> set (room_members st s)"
  shows "ChatUserLeft (opt_userId (map_get s (activeUsers st)))
                      (opt_username (map_get s (activeUsers st))) ts
           \<in> set (received_by t (snd (on_disconnect ts s st)))"
proof -
  let ?st = "st\<lparr>sio_rooms := leave_all s (sio_rooms st)\<rparr>"
  from s obtain us where us: "map_get r (chatRooms st) = Some us" "listed (chatRooms st) r = us"
    by (cases "map_get r (chatRooms st)") (auto simp: listed_def)
  then have e: "(r, us) \<in> set (chatRooms ?st)" by (auto simp: map_get_def dest: map_of_SomeD)
  from l t(1) have "t \<in> set (room_members st r)" by (rule listed_in_rooms_chat)
  with t(2) have m: "t \<in> set (room_members ?st r)"
    by (simp add: members_after_leave_all [OF w])
  from t(3) have x: "t \<notin> set (room_members ?st s)"
    by (simp add: members_after_leave_all [OF w])
  from s us have "s \<in> set us" by simp
  from disconnect_chat_left [OF e this m x, of ts] show ?thesis
    by (simp add: on_disconnect_def)
qed

text \<open>
  A socket that has joined a room named by the id of the socket that closes is excepted
  from the departure with that room: \<open>b\<close> stays in the set of \<open>w\<close> and is sent nothing
  when \<open>a\<close> closes.
\<close>

lemma departure_excepts_room_of_closed_id:
  "chatRooms (fst (on_disconnect ''t5'' ''a'' both_in_w_b_in_a))
     = [(''w'', [''b'']), (''a'', [''b''])] \<and>
   room_members (fst (on_disconnect ''t5'' ''a'' both_in_w_b_in_a)) ''w'' = [''b''] \<and>
   snd (on_disconnect ''t5'' ''a'' both_in_w_b_in_a) =
     [Console (LogClientDisconnected ''a''),
      Emit (SocketTo ''a'' ''w'') (ChatUserLeft None None ''t5'') []] \<and>
   received_by ''b'' (snd (on_disconnect ''t5'' ''a'' both_in_w_b_in_a)) = []"
  by code_simp

text \<open>
  Claim C2. Disconnect removes membership: after the \<open>disconnect\<close> handler has run for a
  socket, the socket is in no set of \<open>chatRooms\<close> or \<open>videoRooms\<close> and not in
  \<open>activeUsers\<close>, and for each chat room and each video room that contained it the
  remaining members are sent \<open>chat:user-left\<close>, respectively \<open>video:user-left\<close>. The
  removal holds (\<open>disconnect_removes_membership\<close>); the departure event does not reach
  every remaining member. In the run \<open>a_left_call\<close> sockets \<open>a\<close> and \<open>b\<close> have joined
  chat room \<open>w\<close> and \<open>a\<close> has joined and left a call held under the same id, as the
  client does with a workspace id. \<open>video:leave-room\<close> has called \<open>socket.leave\<close> for the
  name the chat broadcasts use, and \<open>chatRooms\<close> still lists \<open>a\<close>. When \<open>b\<close> disconnects,
  \<open>a\<close> remains in the set of \<open>w\<close> and is sent nothing.
\<close>

theorem remaining_member_misses_departure:
  "map_get ''w'' (chatRooms a_left_call) = Some [''a'', ''b''] \<and>
   chatRooms (fst (on_disconnect ''t7'' ''b'' a_left_call)) = [(''w'', [''a''])] \<and>
   snd (on_disconnect ''t7'' ''b'' a_left_call) =
     [Console (LogClientDisconnected ''b''),
      Emit (SocketTo ''b'' ''w'') (ChatUserLeft None None ''t7'') []] \<and>
   received_by ''a'' (snd (on_disconnect ''t7'' ''b'' a_left_call)) = []"
  by code_simp

subsection \<open>Joining a room\<close>





text \<open>The same for \<open>video:join-room\<close>, which also tells the joiner who is already there.\<close>

lemma video_join_room_adds_and_announces:
  assumes "video_join_room s r st = (st', effs)"
    and "members = (case map_get r (videoRooms st) of None \<Rightarrow> [] | Some us \<Rightarrow> us)"
    and "u = map_get s (activeUsers st)"
  shows "map_get r (videoRooms st') = Some (set_add s members) \<and>
         (\<forall>t \<in> set (room_members st' r). t \<notin> set (room_members st' s) \<longrightarrow>
            VideoUserJoined s (opt_userId u) (opt_username u) \<in> set (received_by t effs)) \<and>
         Emit (IoTo s) (VideoAllUsers (other_users s r st')) (room_members st' s) \<in> set effs \<and>
         map fst (other_users s r st') = set_delete s members"
proof -
  have st': "st' = st\<lparr>sio_rooms := room_add r s (sio_rooms st),
                       videoRooms := room_add r s (videoRooms st)\<rparr>"
    using assms(1) by (auto simp: video_join_room_def Let_def socket_join_def)
  have effs: "effs =
     [Console (LogVideoJoined (js_or_str (opt_username u) s) r),
      io_to st' s (VideoAllUsers (other_users s r st')),
      socket_to st' s r (VideoUserJoined s (opt_userId u) (opt_username u))]"
    using assms(1,3) by (auto simp: video_join_room_def Let_def socket_join_def)
  have get: "map_get r (videoRooms st') = Some (set_add s members)"
    by (simp add: st' map_get_room_add assms(2))
  have "filter (\<lambda>i. i \<noteq> s) (set_add s members) = set_delete s members"
    by (simp add: set_add_def set_delete_def)
  then have "map fst (other_users s r st') = set_delete s members"
    by (simp add: other_users_def get comp_def)
  then show ?thesis
    using get by (auto simp: effs socket_to_def io_to_def set_has_def)
qed

subsection \<open>Signaling\<close>

text \<open>
  Claim C4, as stated, fails: the offer sent to socket \<open>a\<close> also reaches socket \<open>b\<close>, which
  has joined a chat room whose name is the id of \<open>a\<close>. \<open>io.to(to)\<close> addresses the room
  named \<open>to\<close>, and the join handlers pass any room id on to \<open>socket.join\<close>.
\<close>

theorem offer_reaches_second_socket:
  "''b'' \<noteq> ''a'' \<and>
   VideoReceiveOffer (JStr ''sdp'') ''c'' None
     \<in> set (received_by ''b'' (snd (video_send_offer ''c'' (JStr ''sdp'') ''a'' listener_in_a)))"
  by code_simp

text \<open>
  Claim C4, amended. Signaling is forwarded unchanged to the room named by the target:
  \<open>video:send-offer\<close>, \<open>video:send-answer\<close> and \<open>video:ice-candidate\<close> with target \<open>to\<close>
  change no state and hand the offer, answer or candidate, unmodified and with \<open>from\<close> the
  sender's socket id, to exactly the sockets in the Socket.io room named \<open>to\<close>, each once.
  When the target is the only socket in that room, as it is while no other socket has
  joined a room of that name, the target alone receives it. No membership of a video room
  is looked at: the emission is the same whatever \<open>videoRooms\<close> holds.
\<close>

theorem signaling_forwarded_to_room:
  "fst (video_send_offer s offer to st) = st \<and>
   fst (video_send_answer s answer to st) = st \<and>
   fst (video_ice_candidate s candidate to st) = st \<and>
   (\<forall>t. received_by t (snd (video_send_offer s offer to st)) =
      (if t \<in> set (room_members st to)
       then [VideoReceiveOffer offer s (opt_username (map_get s (activeUsers st)))] else [])) \<and>
   (\<forall>t. received_by t (snd (video_send_answer s answer to st)) =
      (if t \<in> set (room_members st to) then [VideoReceiveAnswer answer s] else [])) \<and>
   (\<forall>t. received_by t (snd (video_ice_candidate s candidate to st)) =
      (if t \<in> set (room_members st to) then [VideoIceCandidate candidate s] else [])) \<and>
   (room_members st to = [to] \<longrightarrow>
      (\<forall>t. received_by t (snd (video_send_offer s offer to st)) \<noteq> [] \<longleftrightarrow> t = to) \<and>
      (\<forall>t. received_by t (snd (video_send_answer s answer to st)) \<noteq> [] \<longleftrightarrow> t = to) \<and>
      (\<forall>t. received_by t (snd (video_ice_candidate s candidate to st)) \<noteq> [] \<longleftrightarrow> t = to)) \<and>
   (\<forall>v. snd (video_send_offer s offer to (st\<lparr>videoRooms := v\<rparr>)) =
          snd (video_send_offer s offer to st) \<and>
        snd (video_send_answer s answer to (st\<lparr>videoRooms := v\<rparr>)) =
          snd (video_send_answer s answer to st) \<and>
        snd (video_ice_candidate s candidate to (st\<lparr>videoRooms := v\<rparr>)) =
          snd (video_ice_candidate s candidate to st))"
  by (simp add: video_send_offer_def video_send_answer_def video_ice_candidate_def io_to_def
                room_members_simps)

theorem signaling_forwarded_to_room_witness:
  "room_members three_connected ''a'' = [''a''] \<and>
   received_by ''a'' (snd (video_send_offer ''c'' (JStr ''sdp'') ''a'' three_connected))
     = [VideoReceiveOffer (JStr ''sdp'') ''c'' None] \<and>
   (received_by ''b'' (snd (video_send_offer ''c'' (JStr ''sdp'') ''a'' three_connected)) \<noteq> []
      \<longleftrightarrow> ''b'' = ''a'') \<and>
   received_by ''a'' (snd (video_send_answer ''c'' (JStr ''sdp'') ''a'' three_connected))
     = [VideoReceiveAnswer (JStr ''sdp'') ''c''] \<and>
   received_by ''a'' (snd (video_ice_candidate ''c'' (JStr ''ice'') ''a'' three_connected))
     = [VideoIceCandidate (JStr ''ice'') ''c'']"
proof -
  have r: "room_members three_connected ''a'' = [''a'']" by code_simp
  have u: "opt_username (map_get ''c'' (activeUsers three_connected)) = None" by code_simp
  note th = signaling_forwarded_to_room
    [of "''c''" "JStr ''sdp''" "''a''" three_connected "JStr ''sdp''" "JStr ''ice''"]
  note rest = th [THEN conjunct2, THEN conjunct2, THEN conjunct2]
  have offer:
    "received_by ''a'' (snd (video_send_offer ''c'' (JStr ''sdp'') ''a'' three_connected))
       = [VideoReceiveOffer (JStr ''sdp'') ''c'' None]"
    using rest [THEN conjunct1, THEN spec, of "''a''"]
    by (simp only: r u list.set insertI1 if_True)
  have answer:
    "received_by ''a'' (snd (video_send_answer ''c'' (JStr ''sdp'') ''a'' three_connected))
       = [VideoReceiveAnswer (JStr ''sdp'') ''c'']"
    using rest [THEN conjunct2, THEN conjunct1, THEN spec, of "''a''"]
    by (simp only: r list.set insertI1 if_True)
  have ice:
    "received_by ''a'' (snd (video_ice_candidate ''c'' (JStr ''ice'') ''a'' three_connected))
       = [VideoIceCandidate (JStr ''ice'') ''c'']"
    using rest [THEN conjunct2, THEN conjunct2, THEN conjunct1, THEN spec, of "''a''"]
    by (simp only: r list.set insertI1 if_True)
  have only:
    "received_by ''b'' (snd (video_send_offer ''c'' (JStr ''sdp'') ''a'' three_connected)) \<noteq> []
       \<longleftrightarrow> ''b'' = ''a''"
    using rest [THEN conjunct2, THEN conjunct2, THEN conjunct2, THEN conjunct1, THEN mp, OF r,
                THEN conjunct1, THEN spec, of "''b''"] .
  show ?thesis
    by (intro conjI r offer answer ice only)
qed

subsection \<open>The state of the relay\<close>

text \<open>
  Claim C5 says that the three maps are the only mutable state a handler reads or writes,
  that no handler writes to a persistent store, and that all relay state is lost when the
  process exits. It speaks of everything the process keeps, the transport's rooms, sessions
  and stored packets included, and of what outlives the process; a model whose state is one
  record cannot say that there is nothing else, and the claim is not stated here. Two facts
  about the state of the model are recorded.

  The three maps do not determine who is sent a message. The two runs below end with the
  same \<open>activeUsers\<close>, \<open>chatRooms\<close> and \<open>videoRooms\<close>, yet the same \<open>chat:send-message\<close>
  reaches socket \<open>a\<close> after one and not after the other: the handler reads the room
  membership the transport keeps, and \<open>chat:join-room\<close> writes it. In the second run \<open>a\<close>
  has left a call held under the chat room's id, \<open>video:leave-room\<close> has taken it out of
  the Socket.io room, and \<open>chatRooms\<close> still lists it.
\<close>

lemma fan_out_not_determined_by_the_maps:
  "activeUsers a_left_call = activeUsers two_in_chat \<and>
   chatRooms a_left_call = chatRooms two_in_chat \<and>
   videoRooms a_left_call = videoRooms two_in_chat \<and>
   set_has ''a'' (room_members two_in_chat ''w'') \<and>
   \<not> set_has ''a'' (room_members a_left_call ''w'') \<and>
   received_by ''a'' (snd (chat_send_message 7 ''t7'' ''b'' hello two_in_chat)) \<noteq>
   received_by ''a'' (snd (chat_send_message 7 ''t7'' ''b'' hello a_left_call)) \<and>
   sio_rooms (fst (chat_join_room ''t7'' ''c'' ''w'' two_in_chat)) \<noteq> sio_rooms two_in_chat"
  by code_simp

text \<open>
  What each handler writes of the four parts of the model's state: \<open>user:join\<close> writes
  \<open>activeUsers\<close> only; the chat join and leave handlers write \<open>chatRooms\<close> and the
  transport's rooms only, the video ones \<open>videoRooms\<close> and the transport's rooms only; the
  \<open>disconnect\<close> handler leaves the transport's rooms as the transport has made them;
  sending a message, the three signaling events and the two error handlers write nothing.
  \<open>GET /\<close> reads the three maps only, and what a message or an offer emits does not
  depend on \<open>chatRooms\<close> or \<open>videoRooms\<close>.
\<close>

lemma relay_state_frame:
  "chatRooms (fst (user_join s userData st)) = chatRooms st \<and>
   videoRooms (fst (user_join s userData st)) = videoRooms st \<and>
   sio_rooms (fst (user_join s userData st)) = sio_rooms st \<and>
   fst (chat_join_room ts s r st) =
     st\<lparr>sio_rooms := room_add r s (sio_rooms st), chatRooms := room_add r s (chatRooms st)\<rparr> \<and>
   fst (chat_leave_room ts s r st) =
     st\<lparr>sio_rooms := room_remove r s (sio_rooms st),
        chatRooms := room_remove r s (chatRooms st)\<rparr> \<and>
   fst (video_join_room s r st) =
     st\<lparr>sio_rooms := room_add r s (sio_rooms st), videoRooms := room_add r s (videoRooms st)\<rparr> \<and>
   fst (video_leave_room s r st) =
     st\<lparr>sio_rooms := room_remove r s (sio_rooms st),
        videoRooms := room_remove r s (videoRooms st)\<rparr> \<and>
   sio_rooms (fst (disconnect ts s st)) = sio_rooms st \<and>
   fst (chat_send_message now ts s data st) = st \<and>
   fst (video_send_offer s x to st) = st \<and>
   fst (video_send_answer s x to st) = st \<and>
   fst (video_ice_candidate s x to st) = st \<and>
   fst (socket_error s err st) = st \<and>
   fst (connect_error err st) = st \<and>
   get_root (st\<lparr>sio_rooms := rooms\<rparr>) = get_root st \<and>
   snd (chat_send_message now ts s data (st\<lparr>chatRooms := c, videoRooms := v\<rparr>)) =
     snd (chat_send_message now ts s data st) \<and>
   snd (video_send_offer s x to (st\<lparr>chatRooms := c, videoRooms := v\<rparr>)) =
     snd (video_send_offer s x to st)"
  by (simp add: user_join_def chat_join_room_def chat_leave_room_def video_join_room_def
                video_leave_room_def fst_disconnect chat_send_message_def video_send_offer_def
                video_send_answer_def video_ice_candidate_def socket_error_def connect_error_def
                get_root_def socket_join_def socket_leave_def Let_def io_to_def
                room_members_simps)

subsection \<open>Reconnection\<close>

text \<open>
  Claim C6, as stated, fails: the options the Socket.io server is created with set
  \<open>connectionStateRecovery\<close>, which the library leaves unset by default.
\<close>

theorem recovery_is_configured:
  "connectionStateRecovery (io_options None) \<noteq> default_connectionStateRecovery"
  by (simp add: io_options_def default_connectionStateRecovery_def)

text \<open>
  Claim C6, amended. The handlers of the relay hold no recovery logic of their own: a new
  connection changes none of \<open>activeUsers\<close>, \<open>chatRooms\<close> and \<open>videoRooms\<close>, so a socket
  that was disconnected stays out of every set until it joins again. The Socket.io
  server, though, is created with connection-state recovery switched on, for
  disconnections of up to 120000 ms and skipping middlewares, whatever \<open>CLIENT_URL\<close> is.
\<close>

theorem recovery_configuration:
  "connectionStateRecovery (io_options client_url) =
     Some \<lparr>maxDisconnectionDuration = 120000, skipMiddlewares = True\<rparr> \<and>
   activeUsers (fst (on_connection s hs recovered st)) = activeUsers st \<and>
   chatRooms (fst (on_connection s hs recovered st)) = chatRooms st \<and>
   videoRooms (fst (on_connection s hs recovered st)) = videoRooms st \<and>
   chatRooms (fst (on_connection s hs recovered (fst (disconnect ts s st))))
     = map (\<lambda>p. (fst p, set_delete s (snd p))) (chatRooms st) \<and>
   videoRooms (fst (on_connection s hs recovered (fst (disconnect ts s st))))
     = map (\<lambda>p. (fst p, set_delete s (snd p))) (videoRooms st)"
  by (simp add: io_options_def on_connection_maps fst_disconnect)

subsection \<open>The status endpoints\<close>

text \<open>
  Claim C7. The relay registers exactly two HTTP routes: \<open>GET /\<close> answers with the status
  object whose \<open>activeUsers\<close>, \<open>chatRooms\<close> and \<open>videoRooms\<close> fields are the current sizes
  of the three maps (in a well-formed state, the numbers of their keys), and
  \<open>GET /api/health\<close> answers \<open>{ status: 'healthy' }\<close> whatever the state.
\<close>

theorem http_status_endpoints:
  "map fst app_routes = [(''GET'', ''/''), (''GET'', ''/api/health'')] \<and>
   map_of app_routes (''GET'', ''/'') = Some get_root \<and>
   map_of app_routes (''GET'', ''/api/health'') = Some get_api_health \<and>
   get_root st = StatusBody ''Remote Work Platform API'' ''1.0.0'' ''running''
                   (map_size (activeUsers st)) (map_size (chatRooms st))
                   (map_size (videoRooms st)) \<and>
   get_api_health st = HealthBody ''healthy'' \<and>
   (well_formed st \<longrightarrow>
      get_root st = StatusBody ''Remote Work Platform API'' ''1.0.0'' ''running''
                      (card (dom (map_of (activeUsers st))))
                      (card (dom (map_of (chatRooms st))))
                      (card (dom (map_of (videoRooms st)))))"
  by (simp add: app_routes_def get_root_def get_api_health_def well_formed_def
                well_formed_rooms_def map_size_card)

theorem http_status_endpoints_witness:
  "well_formed in_call \<and>
   get_root in_call = StatusBody ''Remote Work Platform API'' ''1.0.0'' ''running'' 2 1 1 \<and>
   card (dom (map_of (activeUsers in_call))) = 2 \<and>
   get_api_health in_call = HealthBody ''healthy''"
proof -
  have w: "well_formed in_call" by code_simp
  have n: "map_size (activeUsers in_call) = 2" "map_size (chatRooms in_call) = 1"
          "map_size (videoRooms in_call) = 1"
    by code_simp+
  note th = http_status_endpoints [of in_call]
  note rest = th [THEN conjunct2, THEN conjunct2, THEN conjunct2]
  have r: "get_root in_call = StatusBody ''Remote Work Platform API'' ''1.0.0'' ''running'' 2 1 1"
    using rest [THEN conjunct1] by (simp only: n)
  have c: "card (dom (map_of (activeUsers in_call))) = 2"
    using rest [THEN conjunct2, THEN conjunct2, THEN mp, OF w] r by simp
  show ?thesis
    by (intro conjI w r c rest [THEN conjunct2, THEN conjunct1])
qed

subsection \<open>Errors\<close>

text \<open>
  Claim C8. Errors leave state unchanged: the \<open>error\<close> handler of a socket and the
  \<open>connect_error\<close> handler of the server write one console line each and nothing else; the
  state they return is the state they were given and no socket is handed any event.
\<close>

theorem error_handlers_only_log:
  "socket_error s err st = (st, [Console (LogSocketError err)]) \<and>
   connect_error err st = (st, [Console (LogConnectionError err)]) \<and>
   received_by t (snd (socket_error s err st)) = [] \<and>
   received_by t (snd (connect_error err st)) = []"
  by (simp add: socket_error_def connect_error_def)

subsection \<open>Empty rooms\<close>

lemma chatRooms_chat_leave_room:
  "chatRooms (fst (chat_leave_room ts s r st)) = room_remove r s (chatRooms st)"
  by (simp add: chat_leave_room_def Let_def socket_leave_def)

lemma videoRooms_video_leave_room:
  "videoRooms (fst (video_leave_room s r st)) = room_remove r s (videoRooms st)"
  by (simp add: video_leave_room_def Let_def socket_leave_def)

lemma rooms_nonempty_room_remove:
  assumes "rooms_nonempty m"
  shows "rooms_nonempty (room_remove r s m)"
proof (cases "map_of m r")
  case None
  then show ?thesis using assms by (simp add: room_remove_eq)
next
  case (Some us)
  show ?thesis
  proof (cases "set_delete s us = []")
    case True
    then show ?thesis
      using assms Some set_delete_subset [of r m]
      by (auto simp: room_remove_eq rooms_nonempty_def)
  next
    case False
    then show ?thesis
      using assms Some set_update_subset [of r "set_delete s us" m]
      by (auto simp: room_remove_eq rooms_nonempty_def)
  qed
qed

text \<open>
  Claim C9. Empty-room cleanup is asymmetric: when the socket that sends \<open>chat:leave-room\<close>
  or \<open>video:leave-room\<close> was the last member of the room's set, the room's entry is deleted
  from the map, so a leave keeps every mapped room non-empty; the \<open>disconnect\<close> handler
  deletes no entry, and a room whose only member disconnects stays in the map with the
  empty set.
\<close>

theorem empty_room_cleanup_asymmetric:
  "(map_get r (chatRooms st) = Some us \<and> set us = {s} \<longrightarrow>
      \<not> map_has r (chatRooms (fst (chat_leave_room ts s r st)))) \<and>
   (map_get r (videoRooms st) = Some us \<and> set us = {s} \<longrightarrow>
      \<not> map_has r (videoRooms (fst (video_leave_room s r st)))) \<and>
   (rooms_nonempty (chatRooms st) \<longrightarrow>
      rooms_nonempty (chatRooms (fst (chat_leave_room ts s r st)))) \<and>
   (rooms_nonempty (videoRooms st) \<longrightarrow>
      rooms_nonempty (videoRooms (fst (video_leave_room s r st)))) \<and>
   map fst (chatRooms (fst (disconnect ts s st))) = map fst (chatRooms st) \<and>
   map fst (videoRooms (fst (disconnect ts s st))) = map fst (videoRooms st) \<and>
   (map_get r (chatRooms st) = Some us \<and> set us = {s} \<longrightarrow>
      map_get r (chatRooms (fst (disconnect ts s st))) = Some []) \<and>
   (map_get r (videoRooms st) = Some us \<and> set us = {s} \<longrightarrow>
      map_get r (videoRooms (fst (disconnect ts s st))) = Some [])"
proof -
  have e: "set us = {s} \<Longrightarrow> set_delete s us = []" for us
    using set_set_delete [of s us] by simp
  show ?thesis
    by (simp add: chatRooms_chat_leave_room videoRooms_video_leave_room room_remove_last
                  rooms_nonempty_room_remove fst_disconnect comp_def map_get_map_snd e)
qed

theorem empty_room_cleanup_asymmetric_witness:
  "map_get ''w'' (chatRooms a_alone) = Some [''a''] \<and> set [''a''] = {''a''} \<and>
   rooms_nonempty (chatRooms a_alone) \<and>
   \<not> map_has ''w'' (chatRooms (fst (chat_leave_room ''t3'' ''a'' ''w'' a_alone))) \<and>
   rooms_nonempty (chatRooms (fst (chat_leave_room ''t3'' ''a'' ''w'' a_alone))) \<and>
   map_get ''w'' (chatRooms a_closing) = Some [''a''] \<and>
   map_get ''w'' (chatRooms (fst (disconnect ''t3'' ''a'' a_closing))) = Some [] \<and>
   \<not> rooms_nonempty (chatRooms (fst (disconnect ''t3'' ''a'' a_closing)))"
proof -
  have g: "map_get ''w'' (chatRooms a_alone) = Some [''a'']" by code_simp
  have g': "map_get ''w'' (chatRooms a_closing) = Some [''a'']" by code_simp
  have l: "set [''a''] = {''a''}" by simp
  have n: "rooms_nonempty (chatRooms a_alone)" by code_simp
  note leave = empty_room_cleanup_asymmetric [of "''w''" a_alone "[''a'']" "''a''" "''t3''"]
  note close = empty_room_cleanup_asymmetric [of "''w''" a_closing "[''a'']" "''a''" "''t3''"]
  have 1: "\<not> map_has ''w'' (chatRooms (fst (chat_leave_room ''t3'' ''a'' ''w'' a_alone)))"
    using leave [THEN conjunct1, THEN mp, OF conjI, OF g l] .
  have 2: "rooms_nonempty (chatRooms (fst (chat_leave_room ''t3'' ''a'' ''w'' a_alone)))"
    using leave [THEN conjunct2, THEN conjunct2, THEN conjunct1, THEN mp, OF n] .
  have 3: "map_get ''w'' (chatRooms (fst (disconnect ''t3'' ''a'' a_closing))) = Some []"
    using close [THEN conjunct2, THEN conjunct2, THEN conjunct2, THEN conjunct2, THEN conjunct2,
                 THEN conjunct2, THEN conjunct1, THEN mp, OF conjI, OF g' l] .
  have 4: "\<not> rooms_nonempty (chatRooms (fst (disconnect ''t3'' ''a'' a_closing)))"
    by code_simp
  show ?thesis by (intro conjI g l n 1 2 g' 3 4)
qed

subsection \<open>Joining again\<close>

text \<open>
  Claim C10. Re-joining is idempotent for membership: \<open>chat:join-room\<close> (or
  \<open>video:join-room\<close>) from a socket that is already in the room's set leaves the map as it
  was, so the set does not grow and the \<open>userCount\<close> sent in \<open>chat:room-joined\<close> is the size
  it had; joining twice in a row gives the map that joining once gives.
\<close>

theorem rejoin_idempotent:
  "(map_get r (chatRooms st) = Some us \<and> s \<in> set us \<longrightarrow>
      chatRooms (fst (chat_join_room ts s r st)) = chatRooms st \<and>
      Emit (IoTo s) (ChatRoomJoined r (set_size us))
           (room_members (fst (chat_join_room ts s r st)) s)
        \<in> set (snd (chat_join_room ts s r st))) \<and>
   (map_get r (videoRooms st) = Some us \<and> s \<in> set us \<longrightarrow>
      videoRooms (fst (video_join_room s r st)) = videoRooms st) \<and>
   chatRooms (fst (chat_join_room ts' s r (fst (chat_join_room ts s r st))))
     = chatRooms (fst (chat_join_room ts s r st)) \<and>
   videoRooms (fst (video_join_room s r (fst (video_join_room s r st))))
     = videoRooms (fst (video_join_room s r st))"
proof -
  have again: "room_add r s (room_add r s m) = room_add r s m" for m
    by (rule room_add_present
          [of r _ "set_add s (case map_get r m of None \<Rightarrow> [] | Some us \<Rightarrow> us)"])
       (simp_all add: map_get_room_add set_set_add)
  have v: "videoRooms (fst (video_join_room s r st)) = room_add r s (videoRooms st)" for st
    by (simp add: video_join_room_def Let_def socket_join_def)
  show ?thesis
    by (auto simp: fst_chat_join_room snd_chat_join_room v room_add_present again io_to_def
                   room_count_def)
qed

theorem rejoin_idempotent_witness:
  "map_get ''w'' (chatRooms two_in_chat) = Some [''a'', ''b''] \<and> ''a'' \<in> set [''a'', ''b''] \<and>
   chatRooms (fst (chat_join_room ''t9'' ''a'' ''w'' two_in_chat)) = chatRooms two_in_chat \<and>
   Emit (IoTo ''a'') (ChatRoomJoined ''w'' (set_size [''a'', ''b'']))
        (room_members (fst (chat_join_room ''t9'' ''a'' ''w'' two_in_chat)) ''a'')
     \<in> set (snd (chat_join_room ''t9'' ''a'' ''w'' two_in_chat))"
proof -
  have g: "map_get ''w'' (chatRooms two_in_chat) = Some [''a'', ''b'']" by code_simp
  have i: "''a'' \<in> set [''a'', ''b'']" by simp
  note th = rejoin_idempotent [of "''w''" two_in_chat "[''a'', ''b'']" "''a''" "''t9''",
                               THEN conjunct1, THEN mp, OF conjI, OF g i]
  show ?thesis by (intro conjI g i th [THEN conjunct1] th [THEN conjunct2])
qed

end
